theory Spec2Isabelle
  imports Main "HOL-Library.Log_Nat"
begin

text \<open>
  A model of the verification engine of \<^verbatim>\<open>mcp_paper_verification/verifier.py\<close>: the
  class \<^verbatim>\<open>WebSearchAPI\<close> and the seven analyzers of the class \<^verbatim>\<open>PaperVerifier\<close>. Each
  function of the source is a function of the same name here; what it asks of the
  interpreter's character database, of the file system and of the network is a
  parameter. The first part is the model, the second part the properties.
\<close>

section \<open>Python strings\<close>

text \<open>
  A Python \<^verbatim>\<open>str\<close> is a sequence of Unicode code points, and \<^verbatim>\<open>len\<close>, slicing,
  \<^verbatim>\<open>in\<close> and the \<^verbatim>\<open>re\<close> module all work on code points. A string is therefore a list
  of code points (natural numbers); \<open>asc\<close> turns an ASCII literal into one. Characters
  outside ASCII are written as their code point.
\<close>

type_synonym pystr = "nat list"

definition asc :: "string \<Rightarrow> pystr" where
  "asc s = map of_char s"

text \<open>
  \<^verbatim>\<open>str.strip()\<close> without arguments and the class \<^verbatim>\<open>\s\<close> of a \<^verbatim>\<open>str\<close> pattern use the
  same predicate of the interpreter (\<^verbatim>\<open>Py_UNICODE_ISSPACE\<close>), a fixed list of 29 code
  points.
\<close>

definition is_space :: "nat \<Rightarrow> bool" where
  "is_space c = ((9 \<le> c \<and> c \<le> 13) \<or> (28 \<le> c \<and> c \<le> 32) \<or> c = 133 \<or> c = 160 \<or>
     c = 5760 \<or> (8192 \<le> c \<and> c \<le> 8202) \<or> c = 8232 \<or> c = 8233 \<or> c = 8239 \<or>
     c = 8287 \<or> c = 12288)"

definition strip :: "pystr \<Rightarrow> pystr" where
  "strip s = rev (dropWhile is_space (rev (dropWhile is_space s)))"

text \<open>\<^verbatim>\<open>s.startswith(p)\<close>.\<close>

fun startswith :: "pystr \<Rightarrow> pystr \<Rightarrow> bool" where
  "startswith s [] = True"
| "startswith [] (p # ps) = False"
| "startswith (c # cs) (p # ps) = (c = p \<and> startswith cs ps)"

text \<open>\<^verbatim>\<open>w in s\<close>: \<open>w\<close> occurs in \<open>s\<close> as a substring.\<close>

fun contains :: "pystr \<Rightarrow> pystr \<Rightarrow> bool" where
  "contains [] w = (w = [])"
| "contains (c # cs) w = (startswith (c # cs) w \<or> contains cs w)"

text \<open>\<^verbatim>\<open>s.split('\n')\<close>: never empty; the text after the last newline is the last item.\<close>

fun split_nl :: "pystr \<Rightarrow> pystr list" where
  "split_nl [] = [[]]"
| "split_nl (c # cs) =
     (if c = 10 then [] # split_nl cs
      else (case split_nl cs of [] \<Rightarrow> [[c]] | l # ls \<Rightarrow> (c # l) # ls))"

section \<open>Findings\<close>

text \<open>
  Every issue of the analyzers is an f-string built from a fixed message and a few
  values. An issue is modelled by its message (the constructor) and those values, in
  the order in which they are interpolated; line numbers are the 1-based numbers of
  \<^verbatim>\<open>enumerate(lines, 1)\<close>.
\<close>

text \<open>
  Exceptions. \<open>Raised msg\<close> is an exception of a library call (the file system, the
  network, a parser), with \<^verbatim>\<open>str(e)\<close>; the others are raised by the interpreter.
\<close>

datatype py_exn = TypeError | KeyError | StatisticsError | ZeroDivisionError | Raised pystr

datatype search_error =
    NoApiKey                   \<comment> \<open>\<^verbatim>\<open>SERPER_API_KEY not provided\<close>\<close>
  | BadStatus nat              \<comment> \<open>\<^verbatim>\<open>API request failed with status {status}\<close>\<close>
  | RequestFailed py_exn       \<comment> \<open>\<^verbatim>\<open>Search request failed: {str(e)}\<close>\<close>
  | UnknownError               \<comment> \<open>the default of \<^verbatim>\<open>search_result.get('error', 'Unknown error')\<close>\<close>

datatype issue =
    NoMeaningfulParagraphs           \<comment> \<open>\<^verbatim>\<open>No meaningful paragraphs found\<close>\<close>
  | TooManyShort rat                 \<comment> \<open>too many short paragraphs, with \<open>short_para_ratio\<close>\<close>
  | TooManyVeryShort rat             \<comment> \<open>too many very short paragraphs, with \<open>very_short_ratio\<close>\<close>
  | TooManyListLike rat              \<comment> \<open>too many list-like paragraphs, with \<open>list_ratio\<close>\<close>
  | StereotypeFound "pystr list"     \<comment> \<open>stereotype expressions found, joined by a comma\<close>
  | BareGreek nat pystr              \<comment> \<open>line \<open>i\<close>: bare Greek letter\<close>
  | BareSymbol nat pystr             \<comment> \<open>line \<open>i\<close>: bare math symbol\<close>
  | BareMathExpr nat                 \<comment> \<open>line \<open>i\<close>: possible math expression\<close>
  | NonStandardCitation pystr        \<comment> \<open>non-standard citation \<^verbatim>\<open>[{invalid}]\<close>\<close>
  | CitationNotInBib pystr           \<comment> \<open>the citation of the key \<open>citation\<close> is not in the bib file\<close>
  | BibReadError py_exn              \<comment> \<open>error while reading the bib file\<close>
  | ImageNetworkLink pystr pystr     \<comment> \<open>image \<open>alt\<close> uses a network link \<open>path\<close>\<close>
  | ImageRelativePath pystr pystr    \<comment> \<open>image \<open>alt\<close> uses a relative path \<open>path\<close>\<close>
  | ImageMissing pystr               \<comment> \<open>image file \<open>path\<close> does not exist\<close>
  | FenceBlock nat pystr             \<comment> \<open>line \<open>i\<close>: a code block of type \<open>block_type\<close>\<close>
  | InlineCode nat                   \<comment> \<open>line \<open>i\<close>: inline code\<close>
  | BibFileMissing pystr             \<comment> \<open>the bib file \<open>path\<close> does not exist\<close>
  | RefMissingTitle pystr            \<comment> \<open>reference \<open>key\<close> has no title\<close>
  | RefVerifyFailed pystr search_error  \<comment> \<open>reference \<open>key\<close>: verification failed\<close>
  | RefMaybeFake pystr pystr         \<comment> \<open>reference \<open>key\<close> may not exist: \<open>title\<close>\<close>
  | BibParseError py_exn             \<comment> \<open>error while parsing the bib file\<close>

text \<open>
  JSON values as \<^verbatim>\<open>json.loads\<close> returns them. The value of a number plays no role
  below, only that it is a number.
\<close>

datatype json =
    JNull
  | JBool bool
  | JNum rat
  | JStr pystr
  | JArr "json list"
  | JObj "(pystr \<times> json) list"

text \<open>
  The analyzers return dictionaries with string keys. A dictionary is a finite map from
  the key to a Python value; a float is the rational number it denotes.
\<close>

datatype pyval =
    VBool bool
  | VInt int
  | VFloat rat
  | VIssues "issue list"
  | VStrs "pystr list"
  | VError search_error
  | VJson json

type_synonym finding = "string \<rightharpoonup> pyval"

definition issues_of :: "finding \<Rightarrow> issue list" where
  "issues_of r = (case r ''issues'' of Some (VIssues xs) \<Rightarrow> xs | _ \<Rightarrow> [])"

text \<open>
  The invariant of a finding: both keys are present, and \<^verbatim>\<open>has_issues\<close> is the boolean
  \<^verbatim>\<open>len(issues) > 0\<close>.
\<close>

definition consistent :: "finding \<Rightarrow> bool" where
  "consistent r =
     (case (r ''has_issues'', r ''issues'') of
        (Some (VBool b), Some (VIssues xs)) \<Rightarrow> b = (0 < length xs)
      | _ \<Rightarrow> False)"

section \<open>The code-block analyzer\<close>

text \<open>
  \<^verbatim>\<open>verify_code_blocks\<close>, lines 386 to 422 of verifier.py. The list
  \<^verbatim>\<open>code_block_patterns\<close> is never read. The code point 96 is the backtick.
\<close>

definition is_fence :: "pystr \<Rightarrow> bool" where
  "is_fence line = startswith (strip line) [96, 96, 96]"

text \<open>\<^verbatim>\<open>line.strip()[3:].strip() or <default>\<close>; the default is the two characters U+4EE3 U+7801.\<close>

definition block_type :: "pystr \<Rightarrow> pystr" where
  "block_type line =
     (let t = strip (drop 3 (strip line)) in if t = [] then [20195, 30721] else t)"

text \<open>
  The first loop, with the flag \<^verbatim>\<open>in_code_block\<close> and the line number as state; it
  returns the issues it appends, in order.
\<close>

fun fence_pass :: "bool \<Rightarrow> nat \<Rightarrow> pystr list \<Rightarrow> issue list" where
  "fence_pass in_code_block i [] = []"
| "fence_pass in_code_block i (line # ls) =
     (if is_fence line then
        (if \<not> in_code_block then FenceBlock i (block_type line) # fence_pass True (Suc i) ls
         else fence_pass False (Suc i) ls)
      else fence_pass in_code_block (Suc i) ls)"

text \<open>The second loop.\<close>

fun inline_pass :: "nat \<Rightarrow> pystr list \<Rightarrow> issue list" where
  "inline_pass i [] = []"
| "inline_pass i (line # ls) =
     (if contains line [96] \<and> \<not> is_fence line then
        (if 2 \<le> count_list line 96 then InlineCode i # inline_pass (Suc i) ls
         else inline_pass (Suc i) ls)
      else inline_pass (Suc i) ls)"

definition code_block_issues :: "pystr \<Rightarrow> issue list" where
  "code_block_issues content =
     (let lines = split_nl content in fence_pass False 1 lines @ inline_pass 1 lines)"

definition verify_code_blocks :: "pystr \<Rightarrow> finding" where
  "verify_code_blocks content =
     (let issues = code_block_issues content in
      [''has_issues'' \<mapsto> VBool (0 < length issues), ''issues'' \<mapsto> VIssues issues])"

text \<open>The line numbers that the fence issues and the inline-code issues of a list cite.\<close>

fun fence_lines :: "issue list \<Rightarrow> nat list" where
  "fence_lines [] = []"
| "fence_lines (FenceBlock i t # xs) = i # fence_lines xs"
| "fence_lines (x # xs) = fence_lines xs"

fun inline_lines :: "issue list \<Rightarrow> nat list" where
  "inline_lines [] = []"
| "inline_lines (InlineCode i # xs) = i # inline_lines xs"
| "inline_lines (x # xs) = inline_lines xs"

text \<open>The numbers (from \<open>i\<close> on) of the lines that are fence lines.\<close>

fun fence_numbers :: "nat \<Rightarrow> pystr list \<Rightarrow> nat list" where
  "fence_numbers i [] = []"
| "fence_numbers i (line # ls) =
     (if is_fence line then i # fence_numbers (Suc i) ls else fence_numbers (Suc i) ls)"

section \<open>Regular expressions\<close>

text \<open>
  The classes of Unicode that the interpreter reads from its character database are
  fixed on ASCII; beyond ASCII they are parameters of the model: \<open>u_alnum\<close> is
  \<^verbatim>\<open>str.isalnum\<close> (the class \<^verbatim>\<open>\w\<close> is this one and the underscore), \<open>u_decimal\<close> is
  the class \<^verbatim>\<open>\d\<close>, \<open>u_digit\<close> is \<^verbatim>\<open>str.isdigit\<close>.
\<close>

record unicode_tables =
  u_alnum :: "nat \<Rightarrow> bool"
  u_decimal :: "nat \<Rightarrow> bool"
  u_digit :: "nat \<Rightarrow> bool"

definition ascii_letter :: "nat \<Rightarrow> bool" where
  "ascii_letter c = ((65 \<le> c \<and> c \<le> 90) \<or> (97 \<le> c \<and> c \<le> 122))"

definition ascii_digit :: "nat \<Rightarrow> bool" where
  "ascii_digit c = (48 \<le> c \<and> c \<le> 57)"

definition is_word :: "unicode_tables \<Rightarrow> nat \<Rightarrow> bool" where
  "is_word U c = (if c < 128 then ascii_letter c \<or> ascii_digit c \<or> c = 95 else u_alnum U c)"

definition is_decimal :: "unicode_tables \<Rightarrow> nat \<Rightarrow> bool" where
  "is_decimal U c = (if c < 128 then ascii_digit c else u_decimal U c)"

definition is_digit_char :: "unicode_tables \<Rightarrow> nat \<Rightarrow> bool" where
  "is_digit_char U c = (if c < 128 then ascii_digit c else u_digit U c)"

text \<open>\<^verbatim>\<open>s.isdigit()\<close>: at least one character, and all of them digits.\<close>

definition isdigit :: "unicode_tables \<Rightarrow> pystr \<Rightarrow> bool" where
  "isdigit U s = (s \<noteq> [] \<and> list_all (is_digit_char U) s)"

text \<open>
  Where a pattern is only asked whether it matches (\<^verbatim>\<open>re.search\<close> and \<^verbatim>\<open>re.match\<close> under
  \<^verbatim>\<open>if\<close>), it is written with the combinators below. Each takes the classes of its own
  item and the matcher \<open>k\<close> of the rest of the pattern, and holds when some way of
  matching the item lets \<open>k\<close> match what follows; a backtracking matcher finds a match
  exactly when there is one.
\<close>

definition rx_accept :: "pystr \<Rightarrow> bool" where
  "rx_accept s = True"

definition rx_one :: "(nat \<Rightarrow> bool) \<Rightarrow> (pystr \<Rightarrow> bool) \<Rightarrow> pystr \<Rightarrow> bool" where
  "rx_one P k s = (case s of [] \<Rightarrow> False | c # cs \<Rightarrow> P c \<and> k cs)"

fun rx_star :: "(nat \<Rightarrow> bool) \<Rightarrow> (pystr \<Rightarrow> bool) \<Rightarrow> pystr \<Rightarrow> bool" where
  "rx_star P k [] = k []"
| "rx_star P k (c # cs) = (k (c # cs) \<or> (P c \<and> rx_star P k cs))"

definition rx_plus :: "(nat \<Rightarrow> bool) \<Rightarrow> (pystr \<Rightarrow> bool) \<Rightarrow> pystr \<Rightarrow> bool" where
  "rx_plus P k = rx_one P (rx_star P k)"

text \<open>Between 0 and \<open>n\<close> characters of a class.\<close>

fun rx_upto :: "nat \<Rightarrow> (nat \<Rightarrow> bool) \<Rightarrow> (pystr \<Rightarrow> bool) \<Rightarrow> pystr \<Rightarrow> bool" where
  "rx_upto 0 P k s = k s"
| "rx_upto (Suc n) P k s = (k s \<or> (case s of [] \<Rightarrow> False | c # cs \<Rightarrow> P c \<and> rx_upto n P k cs))"

definition rx_lit :: "pystr \<Rightarrow> (pystr \<Rightarrow> bool) \<Rightarrow> pystr \<Rightarrow> bool" where
  "rx_lit w k s = (startswith s w \<and> k (drop (length w) s))"

text \<open>
  \<^verbatim>\<open>re.search\<close> with \<^verbatim>\<open>re.MULTILINE\<close> of a pattern that starts with \<^verbatim>\<open>^\<close>: the rest of the
  pattern is tried at the start of the string and after every newline.
\<close>

fun after_newline :: "(pystr \<Rightarrow> bool) \<Rightarrow> pystr \<Rightarrow> bool" where
  "after_newline m [] = False"
| "after_newline m (c # cs) = ((c = 10 \<and> m cs) \<or> after_newline m cs)"

definition search_multiline :: "(pystr \<Rightarrow> bool) \<Rightarrow> pystr \<Rightarrow> bool" where
  "search_multiline m s = (m s \<or> after_newline m s)"

text \<open>
  \<^verbatim>\<open>re.search\<close> of a pattern that starts with \<^verbatim>\<open>\b\<close>: the rest is tried at every position
  where exactly one of the character before (\<open>prev\<close> tells whether it is a word
  character; there is none at the start) and the character after is a word character.
\<close>

fun search_boundary :: "(nat \<Rightarrow> bool) \<Rightarrow> (pystr \<Rightarrow> bool) \<Rightarrow> bool \<Rightarrow> pystr \<Rightarrow> bool" where
  "search_boundary isw m prev [] = (prev \<and> m [])"
| "search_boundary isw m prev (c # cs) =
     ((prev \<noteq> isw c \<and> m (c # cs)) \<or> search_boundary isw m (isw c) cs)"

text \<open>
  Where the matched text is used (\<^verbatim>\<open>re.findall\<close>, \<^verbatim>\<open>re.sub\<close>, \<^verbatim>\<open>re.split\<close>), the pattern is
  matched at the start of a string and gives the groups and the text after the match.
  The three bracket patterns are deterministic: a negated class followed by the
  excluded character can only end at the first occurrence of that character.

  The image pattern \<^verbatim>\<open>!\[([^\]]*)\]\(([^)]+)\)\<close>; 33 is the exclamation mark, 91 and 93
  are the square brackets, 40 and 41 the parentheses.
\<close>

definition match_image :: "pystr \<Rightarrow> (pystr \<times> pystr \<times> pystr) option" where
  "match_image s =
     (case s of
        a # b # r1 \<Rightarrow>
          if a = 33 \<and> b = 91 then
            (case dropWhile (\<lambda>c. c \<noteq> 93) r1 of
               c # d # r3 \<Rightarrow>
                 if d = 40 then
                   (case dropWhile (\<lambda>c. c \<noteq> 41) r3 of
                      e # r5 \<Rightarrow>
                        if takeWhile (\<lambda>c. c \<noteq> 41) r3 \<noteq> [] then
                          Some (takeWhile (\<lambda>c. c \<noteq> 93) r1, takeWhile (\<lambda>c. c \<noteq> 41) r3, r5)
                        else None
                    | [] \<Rightarrow> None)
                 else None
             | _ \<Rightarrow> None)
          else None
      | _ \<Rightarrow> None)"

text \<open>The citation pattern \<^verbatim>\<open>\[@([^\]]+)\]\<close>: the key and the text after the match.\<close>

definition match_citation :: "pystr \<Rightarrow> (pystr \<times> pystr) option" where
  "match_citation s =
     (case s of
        a # b # r1 \<Rightarrow>
          if a = 91 \<and> b = 64 then
            (case dropWhile (\<lambda>c. c \<noteq> 93) r1 of
               c # r2 \<Rightarrow>
                 if takeWhile (\<lambda>c. c \<noteq> 93) r1 \<noteq> [] then Some (takeWhile (\<lambda>c. c \<noteq> 93) r1, r2)
                 else None
             | [] \<Rightarrow> None)
          else None
      | _ \<Rightarrow> None)"

text \<open>
  The pattern \<^verbatim>\<open>\[(?!@)[^\]]*\]\<close>. It has no group, so the matched text is the whole
  match, with its two brackets.
\<close>

definition match_bracket :: "pystr \<Rightarrow> (pystr \<times> pystr) option" where
  "match_bracket s =
     (case s of
        a # r1 \<Rightarrow>
          if a = 91 \<and> \<not> startswith r1 [64] then
            (case dropWhile (\<lambda>c. c \<noteq> 93) r1 of
               c # r2 \<Rightarrow> Some (91 # takeWhile (\<lambda>c. c \<noteq> 93) r1 @ [93], r2)
             | [] \<Rightarrow> None)
          else None
      | [] \<Rightarrow> None)"

lemma length_dropWhile_less:
  "dropWhile P xs = y # ys \<Longrightarrow> length ys < length xs"
  using length_dropWhile_le [of P xs] by simp

lemma match_image_shorter:
  "match_image s = Some (alt, tgt, rest) \<Longrightarrow> length rest < length s"
  by (auto simp: match_image_def split: list.splits if_splits
      dest!: length_dropWhile_less)

lemma match_citation_shorter:
  "match_citation s = Some (k, rest) \<Longrightarrow> length rest < length s"
  by (auto simp: match_citation_def split: list.splits if_splits
      dest!: length_dropWhile_less)

lemma match_bracket_shorter:
  "match_bracket s = Some (k, rest) \<Longrightarrow> length rest < length s"
  by (auto simp: match_bracket_def split: list.splits if_splits
      dest!: length_dropWhile_less)

text \<open>
  \<^verbatim>\<open>re.findall\<close> scans from the left: where the pattern matches, the match is recorded and
  the scan goes on after it; elsewhere it moves one character on. No pattern here
  matches the empty string. \<^verbatim>\<open>re.sub(pattern, '', s)\<close> scans the same way and keeps the
  characters outside the matches.
\<close>

function findall_images :: "pystr \<Rightarrow> (pystr \<times> pystr) list" where
  "findall_images [] = []"
| "findall_images (c # cs) =
     (case match_image (c # cs) of
        Some (alt, tgt, rest) \<Rightarrow> (alt, tgt) # findall_images rest
      | None \<Rightarrow> findall_images cs)"
  by pat_completeness auto
termination
  by (relation "measure length") (auto dest: match_image_shorter)

function remove_images :: "pystr \<Rightarrow> pystr" where
  "remove_images [] = []"
| "remove_images (c # cs) =
     (case match_image (c # cs) of
        Some (alt, tgt, rest) \<Rightarrow> remove_images rest
      | None \<Rightarrow> c # remove_images cs)"
  by pat_completeness auto
termination
  by (relation "measure length") (auto dest: match_image_shorter)

function findall_citations :: "pystr \<Rightarrow> pystr list" where
  "findall_citations [] = []"
| "findall_citations (c # cs) =
     (case match_citation (c # cs) of
        Some (k, rest) \<Rightarrow> k # findall_citations rest
      | None \<Rightarrow> findall_citations cs)"
  by pat_completeness auto
termination
  by (relation "measure length") (auto dest: match_citation_shorter)

function findall_brackets :: "pystr \<Rightarrow> pystr list" where
  "findall_brackets [] = []"
| "findall_brackets (c # cs) =
     (case match_bracket (c # cs) of
        Some (k, rest) \<Rightarrow> k # findall_brackets rest
      | None \<Rightarrow> findall_brackets cs)"
  by pat_completeness auto
termination
  by (relation "measure length") (auto dest: match_bracket_shorter)

section \<open>The world outside\<close>

text \<open>
  What the analyzers ask of the operating system is a parameter of the model:
  \<^verbatim>\<open>os.path.isabs\<close>, \<^verbatim>\<open>os.path.exists\<close>, and \<open>load_bib\<close>, which stands for opening and
  reading a file and parsing it with \<^verbatim>\<open>bibtexparser.loads\<close>: it raises, or gives the
  entries in the order of the file. An entry is a dictionary from field names
  (\<^verbatim>\<open>ID\<close>, \<^verbatim>\<open>title\<close>, \<^verbatim>\<open>author\<close>, ...) to strings.
\<close>

type_synonym bib_entry = "string \<rightharpoonup> pystr"

record filesystem =
  os_path_isabs :: "pystr \<Rightarrow> bool"
  os_path_exists :: "pystr \<Rightarrow> bool"
  load_bib :: "pystr \<Rightarrow> py_exn + bib_entry list"

text \<open>\<^verbatim>\<open>entry.get(field, '')\<close>.\<close>

definition entry_get :: "bib_entry \<Rightarrow> string \<Rightarrow> pystr" where
  "entry_get entry field = (case entry field of None \<Rightarrow> [] | Some v \<Rightarrow> v)"

section \<open>The image analyzer\<close>

text \<open>
  \<^verbatim>\<open>verify_images\<close>, lines 354 to 384. \<^verbatim>\<open>md_dir\<close> is computed and never read. The loop
  returns the issues it appends, in order.
\<close>

fun image_loop :: "filesystem \<Rightarrow> (pystr \<times> pystr) list \<Rightarrow> issue list" where
  "image_loop fs [] = []"
| "image_loop fs ((alt_text, img_path) # images) =
     (if startswith img_path (asc ''http://'') \<or> startswith img_path (asc ''https://'') then
        ImageNetworkLink alt_text img_path # image_loop fs images
      else if \<not> os_path_isabs fs img_path then
        ImageRelativePath alt_text img_path # image_loop fs images
      else if \<not> os_path_exists fs img_path then
        ImageMissing img_path # image_loop fs images
      else image_loop fs images)"

definition verify_images :: "filesystem \<Rightarrow> pystr \<Rightarrow> pystr \<Rightarrow> finding" where
  "verify_images fs content md_file_path =
     (let images = findall_images content;
          issues = image_loop fs images
      in [''has_issues'' \<mapsto> VBool (0 < length issues), ''issues'' \<mapsto> VIssues issues,
          ''images_found'' \<mapsto> VInt (int (length images))])"

text \<open>
  The verdict on one image in the words of the specification: the first failing check,
  in the order network link, relative path, missing file.
\<close>

definition first_failing_check :: "filesystem \<Rightarrow> pystr \<times> pystr \<Rightarrow> issue option" where
  "first_failing_check fs im =
     (let target = snd im in
      if startswith target (asc ''http://'') \<or> startswith target (asc ''https://'')
        then Some (ImageNetworkLink (fst im) target)
      else if \<not> os_path_isabs fs target then Some (ImageRelativePath (fst im) target)
      else if \<not> os_path_exists fs target then Some (ImageMissing target)
      else None)"

section \<open>The formula analyzer\<close>

text \<open>\<^verbatim>\<open>verify_latex_formulas\<close>, lines 241 to 301. The two tables, as code points.\<close>

definition greek_letters :: "pystr list" where
  "greek_letters = map (\<lambda>c. [c])
     [945, 946, 947, 948, 949, 950, 951, 952, 953, 954, 955, 956, 957, 958, 959, 960, 961,
      963, 964, 965, 966, 967, 968, 969,
      913, 914, 915, 916, 917, 918, 919, 920, 921, 922, 923, 924, 925, 926, 927, 928, 929,
      931, 932, 933, 934, 935, 936, 937]"

definition math_symbols :: "pystr list" where
  "math_symbols = map (\<lambda>c. [c])
     [8721, 8719, 8747, 8734, 8804, 8805, 8800, 177, 8733, 8712, 8704, 8707]"

text \<open>The test \<^verbatim>\<open>'$' in line or '$$' in line\<close> that skips a line.\<close>

definition has_dollar :: "pystr \<Rightarrow> bool" where
  "has_dollar line = (contains line (asc ''$'') \<or> contains line (asc ''$$''))"

text \<open>The inner loops over a table, for one line.\<close>

fun greek_in_line :: "nat \<Rightarrow> pystr \<Rightarrow> pystr list \<Rightarrow> issue list" where
  "greek_in_line i l [] = []"
| "greek_in_line i l (letter # rest) =
     (if contains l letter then BareGreek i letter # greek_in_line i l rest
      else greek_in_line i l rest)"

fun symbols_in_line :: "nat \<Rightarrow> pystr \<Rightarrow> pystr list \<Rightarrow> issue list" where
  "symbols_in_line i l [] = []"
| "symbols_in_line i l (symbol # rest) =
     (if contains l symbol then BareSymbol i symbol # symbols_in_line i l rest
      else symbols_in_line i l rest)"

text \<open>
  The three patterns of \<^verbatim>\<open>math_patterns\<close>, each after its \<^verbatim>\<open>\b\<close>:
  \<^verbatim>\<open>[a-zA-Z]\s*=\s*[a-zA-Z0-9+\-*/^()]+\<close>, \<^verbatim>\<open>[a-zA-Z]+\s*\^\s*[0-9]+\<close> and
  \<^verbatim>\<open>[a-zA-Z]+_[a-zA-Z0-9]+\<close>.
\<close>

definition operand_char :: "nat \<Rightarrow> bool" where
  "operand_char c = (ascii_letter c \<or> ascii_digit c \<or> c = 43 \<or> c = 45 \<or> c = 42 \<or> c = 47 \<or>
     c = 94 \<or> c = 40 \<or> c = 41)"

definition assignment_pattern :: "pystr \<Rightarrow> bool" where
  "assignment_pattern =
     rx_one ascii_letter (rx_star is_space (rx_lit (asc ''='') (rx_star is_space
       (rx_plus operand_char rx_accept))))"

definition power_pattern :: "pystr \<Rightarrow> bool" where
  "power_pattern =
     rx_plus ascii_letter (rx_star is_space (rx_lit (asc ''^'') (rx_star is_space
       (rx_plus ascii_digit rx_accept))))"

definition subscript_pattern :: "pystr \<Rightarrow> bool" where
  "subscript_pattern =
     rx_plus ascii_letter (rx_lit (asc ''_'')
       (rx_plus (\<lambda>c. ascii_letter c \<or> ascii_digit c) rx_accept))"

definition math_patterns :: "(pystr \<Rightarrow> bool) list" where
  "math_patterns = [assignment_pattern, power_pattern, subscript_pattern]"

text \<open>The inner loop over the patterns stops at the first one that is found.\<close>

fun patterns_in_line :: "unicode_tables \<Rightarrow> nat \<Rightarrow> pystr \<Rightarrow> (pystr \<Rightarrow> bool) list \<Rightarrow> issue list" where
  "patterns_in_line U i l [] = []"
| "patterns_in_line U i l (pattern # rest) =
     (if search_boundary (is_word U) pattern False l then [BareMathExpr i]
      else patterns_in_line U i l rest)"

text \<open>The three loops over \<^verbatim>\<open>enumerate(lines, 1)\<close>.\<close>

fun greek_pass :: "nat \<Rightarrow> pystr list \<Rightarrow> issue list" where
  "greek_pass i [] = []"
| "greek_pass i (line # ls) =
     (if has_dollar line then greek_pass (Suc i) ls
      else greek_in_line i (remove_images line) greek_letters @ greek_pass (Suc i) ls)"

fun symbol_pass :: "nat \<Rightarrow> pystr list \<Rightarrow> issue list" where
  "symbol_pass i [] = []"
| "symbol_pass i (line # ls) =
     (if has_dollar line then symbol_pass (Suc i) ls
      else symbols_in_line i (remove_images line) math_symbols @ symbol_pass (Suc i) ls)"

fun pattern_pass :: "unicode_tables \<Rightarrow> nat \<Rightarrow> pystr list \<Rightarrow> issue list" where
  "pattern_pass U i [] = []"
| "pattern_pass U i (line # ls) =
     (if has_dollar line then pattern_pass U (Suc i) ls
      else patterns_in_line U i (remove_images line) math_patterns @ pattern_pass U (Suc i) ls)"

definition latex_issues :: "unicode_tables \<Rightarrow> pystr \<Rightarrow> issue list" where
  "latex_issues U content =
     (let lines = split_nl content in
      greek_pass 1 lines @ symbol_pass 1 lines @ pattern_pass U 1 lines)"

definition verify_latex_formulas :: "unicode_tables \<Rightarrow> pystr \<Rightarrow> finding" where
  "verify_latex_formulas U content =
     (let issues = latex_issues U content in
      [''has_issues'' \<mapsto> VBool (0 < length issues), ''issues'' \<mapsto> VIssues issues])"

text \<open>
  The line an issue of the formula analyzer cites and the rank of its kind: 0 for a
  Greek letter, 1 for a symbol, 2 for an expression.
\<close>

fun issue_line :: "issue \<Rightarrow> nat" where
  "issue_line (BareGreek i x) = i"
| "issue_line (BareSymbol i x) = i"
| "issue_line (BareMathExpr i) = i"
| "issue_line x = 0"

fun issue_kind :: "issue \<Rightarrow> nat" where
  "issue_kind (BareGreek i x) = 0"
| "issue_kind (BareSymbol i x) = 1"
| "issue_kind (BareMathExpr i) = 2"
| "issue_kind x = 3"

text \<open>The two orders on issues: by line and then by kind; by kind and then by line.\<close>

definition line_then_kind :: "issue \<Rightarrow> issue \<Rightarrow> bool" where
  "line_then_kind a b =
     (issue_line a < issue_line b \<or> (issue_line a = issue_line b \<and> issue_kind a \<le> issue_kind b))"

definition kind_then_line :: "issue \<Rightarrow> issue \<Rightarrow> bool" where
  "kind_then_line a b =
     (issue_kind a < issue_kind b \<or> (issue_kind a = issue_kind b \<and> issue_line a \<le> issue_line b))"

section \<open>The citation analyzer\<close>

text \<open>
  \<^verbatim>\<open>verify_citations\<close>, lines 303 to 352. The loop over \<^verbatim>\<open>invalid_citations\<close>; each item is
  a whole match of the bracket pattern.
\<close>

fun invalid_loop :: "unicode_tables \<Rightarrow> pystr list \<Rightarrow> issue list" where
  "invalid_loop U [] = []"
| "invalid_loop U (invalid # rest) =
     (if \<not> (contains invalid (asc ''http'') \<or> isdigit U invalid) then
        NonStandardCitation invalid # invalid_loop U rest
      else invalid_loop U rest)"

text \<open>The loop over the citations, against the keys of the bibliography.\<close>

fun missing_loop :: "pystr list \<Rightarrow> pystr list \<Rightarrow> issue list" where
  "missing_loop bib_keys [] = []"
| "missing_loop bib_keys (citation # rest) =
     (if citation \<notin> set bib_keys then CitationNotInBib citation # missing_loop bib_keys rest
      else missing_loop bib_keys rest)"

text \<open>
  \<^verbatim>\<open>bib_db.entries_dict.keys()\<close>: the parser gives every entry its \<^verbatim>\<open>ID\<close>.
\<close>

definition entries_dict_keys :: "bib_entry list \<Rightarrow> pystr list" where
  "entries_dict_keys entries = map (\<lambda>e. entry_get e ''ID'') entries"

text \<open>
  The block under \<^verbatim>\<open>if bib_file_path and os.path.exists(bib_file_path)\<close>, with its
  \<^verbatim>\<open>try\<close>: whatever is raised while the file is read and parsed becomes one issue.
\<close>

definition bib_check :: "filesystem \<Rightarrow> pystr option \<Rightarrow> pystr list \<Rightarrow> issue list" where
  "bib_check fs bib_file_path citations =
     (case bib_file_path of
        None \<Rightarrow> []
      | Some p \<Rightarrow>
          if p \<noteq> [] \<and> os_path_exists fs p then
            (case load_bib fs p of
               Inl e \<Rightarrow> [BibReadError e]
             | Inr entries \<Rightarrow> missing_loop (entries_dict_keys entries) citations)
          else [])"

definition verify_citations ::
  "unicode_tables \<Rightarrow> filesystem \<Rightarrow> pystr \<Rightarrow> pystr option \<Rightarrow> finding" where
  "verify_citations U fs content bib_file_path =
     (let citations = findall_citations content in
      if citations = [] then
        [''has_issues'' \<mapsto> VBool False, ''issues'' \<mapsto> VIssues [],
         ''citations_found'' \<mapsto> VInt 0, ''unique_citations'' \<mapsto> VInt 0]
      else
        (let content_without_images = remove_images content;
             invalid_citations = findall_brackets content_without_images;
             issues = invalid_loop U invalid_citations @ bib_check fs bib_file_path citations
         in [''has_issues'' \<mapsto> VBool (0 < length issues), ''issues'' \<mapsto> VIssues issues,
             ''citations_found'' \<mapsto> VInt (int (length citations)),
             ''unique_citations'' \<mapsto> VInt (int (length (remdups citations)))]))"

section \<open>The web lookup\<close>

text \<open>
  \<^verbatim>\<open>WebSearchAPI.search_reference\<close>, lines 24 to 82. What the network does is a parameter:
  the reply to one POST request is either an exception raised while connecting, sending
  or reading (\<open>RequestRaises\<close>, with \<^verbatim>\<open>str(e)\<close>), or a response with its status and what
  \<^verbatim>\<open>json.loads(data.decode("utf-8"))\<close> makes of its body: an exception, or a JSON value.
  The body is decoded only when the status is 200.
\<close>

datatype http_reply = RequestRaises pystr | Reply nat "py_exn + json"

text \<open>
  The operations of the interpreter on the decoded value, each with the \<^verbatim>\<open>TypeError\<close> or
  \<^verbatim>\<open>KeyError\<close> it raises: \<^verbatim>\<open>"organic" in result\<close> (a key of a dictionary, an item of a
  list, a substring of a string), \<^verbatim>\<open>result["organic"]\<close>, \<^verbatim>\<open>len\<close> and the slice \<^verbatim>\<open>[:3]\<close>.
  A dictionary is the list of its items, with distinct keys.
\<close>

fun organic_in :: "json \<Rightarrow> py_exn + bool" where
  "organic_in (JObj items) = Inr (map_of items (asc ''organic'') \<noteq> None)"
| "organic_in (JArr xs) = Inr (JStr (asc ''organic'') \<in> set xs)"
| "organic_in (JStr s) = Inr (contains s (asc ''organic''))"
| "organic_in v = Inl TypeError"

fun getitem_organic :: "json \<Rightarrow> py_exn + json" where
  "getitem_organic (JObj items) =
     (case map_of items (asc ''organic'') of None \<Rightarrow> Inl KeyError | Some v \<Rightarrow> Inr v)"
| "getitem_organic v = Inl TypeError"

fun py_len :: "json \<Rightarrow> py_exn + nat" where
  "py_len (JStr s) = Inr (length s)"
| "py_len (JArr xs) = Inr (length xs)"
| "py_len (JObj items) = Inr (length items)"
| "py_len v = Inl TypeError"

fun first_three :: "json \<Rightarrow> py_exn + json" where
  "first_three (JStr s) = Inr (JStr (take 3 s))"
| "first_three (JArr xs) = Inr (JArr (take 3 xs))"
| "first_three v = Inl TypeError"

text \<open>Lines 62 to 73: the two dictionaries returned for a decoded body.\<close>

definition read_result :: "json \<Rightarrow> py_exn + finding" where
  "read_result result =
     (case organic_in result of
        Inl e \<Rightarrow> Inl e
      | Inr False \<Rightarrow>
          Inr [''success'' \<mapsto> VBool True, ''found'' \<mapsto> VBool False, ''results'' \<mapsto> VJson (JArr [])]
      | Inr True \<Rightarrow>
          (case getitem_organic result of
             Inl e \<Rightarrow> Inl e
           | Inr organic \<Rightarrow>
               (case py_len organic of
                  Inl e \<Rightarrow> Inl e
                | Inr n \<Rightarrow>
                    if 0 < n then
                      (case first_three organic of
                         Inl e \<Rightarrow> Inl e
                       | Inr results \<Rightarrow>
                           Inr [''success'' \<mapsto> VBool True, ''found'' \<mapsto> VBool True,
                                ''results'' \<mapsto> VJson results])
                    else
                      Inr [''success'' \<mapsto> VBool True, ''found'' \<mapsto> VBool False,
                           ''results'' \<mapsto> VJson (JArr [])])))"

text \<open>The body of the \<^verbatim>\<open>try\<close> block: it returns a dictionary or raises.\<close>

definition try_request :: "http_reply \<Rightarrow> py_exn + finding" where
  "try_request reply =
     (case reply of
        RequestRaises msg \<Rightarrow> Inl (Raised msg)
      | Reply status body \<Rightarrow>
          if status \<noteq> 200 then
            Inr [''success'' \<mapsto> VBool False, ''error'' \<mapsto> VError (BadStatus status)]
          else (case body of Inl e \<Rightarrow> Inl e | Inr result \<Rightarrow> read_result result))"

text \<open>The query: the title in double quotes, then a space and the authors if there are any.\<close>

definition build_query :: "pystr \<Rightarrow> pystr \<Rightarrow> pystr" where
  "build_query title authors =
     [34] @ title @ [34] @ (if authors \<noteq> [] then 32 # authors else [])"

text \<open>
  \<open>api_key\<close> is the attribute of the object (\<^verbatim>\<open>None\<close> or a string; the empty string is
  falsy too), \<open>post\<close> gives the reply of the network to a query. \<^verbatim>\<open>except Exception\<close> turns
  whatever the \<^verbatim>\<open>try\<close> block raises into a dictionary; \<^verbatim>\<open>conn.close()\<close> in the \<^verbatim>\<open>finally\<close>
  block changes no result.
\<close>

definition search_reference ::
  "pystr option \<Rightarrow> (pystr \<Rightarrow> http_reply) \<Rightarrow> pystr \<Rightarrow> pystr \<Rightarrow> finding" where
  "search_reference api_key post title authors =
     (if api_key = None \<or> api_key = Some [] then
        [''success'' \<mapsto> VBool False, ''error'' \<mapsto> VError NoApiKey]
      else
        (case try_request (post (build_query title authors)) of
           Inl e \<Rightarrow> [''success'' \<mapsto> VBool False, ''error'' \<mapsto> VError (RequestFailed e)]
         | Inr r \<Rightarrow> r))"


section \<open>The bibliography analyzer\<close>

text \<open>
  \<^verbatim>\<open>verify_bib_references\<close>, lines 424 to 476. The state of the loop is the three local
  variables and, to tell which lookups were made, the list of the calls of
  \<^verbatim>\<open>search_reference\<close> so far (title and author of each). The network may answer
  differently from call to call: \<open>net\<close> gives the reply to a query after the calls made
  before.
\<close>

record bib_state =
  issues :: "issue list"
  verified_count :: nat
  total_count :: nat
  lookups :: "(pystr \<times> pystr) list"

text \<open>\<^verbatim>\<open>d[key]\<close> on a dictionary, and the truth value of what it holds.\<close>

definition getitem :: "finding \<Rightarrow> string \<Rightarrow> py_exn + pyval" where
  "getitem d k = (case d k of None \<Rightarrow> Inl KeyError | Some v \<Rightarrow> Inr v)"

fun truthy :: "pyval \<Rightarrow> bool" where
  "truthy (VBool b) = b"
| "truthy (VInt n) = (n \<noteq> 0)"
| "truthy (VFloat x) = (x \<noteq> 0)"
| "truthy (VIssues xs) = (xs \<noteq> [])"
| "truthy (VStrs xs) = (xs \<noteq> [])"
| "truthy (VError e) = True"
| "truthy (VJson j) = (j \<noteq> JNull \<and> j \<noteq> JBool False \<and> j \<noteq> JNum 0 \<and> j \<noteq> JStr [] \<and> j \<noteq> JArr [] \<and> j \<noteq> JObj [])"

text \<open>\<^verbatim>\<open>search_result.get('error', 'Unknown error')\<close>.\<close>

definition get_error :: "finding \<Rightarrow> search_error" where
  "get_error d = (case d ''error'' of Some (VError e) \<Rightarrow> e | _ \<Rightarrow> UnknownError)"

text \<open>
  One round of the loop. It gives the state at its end and, if the round raised, the
  exception: what was assigned before is kept.
\<close>

definition entry_step ::
  "pystr option \<Rightarrow> ((pystr \<times> pystr) list \<Rightarrow> pystr \<Rightarrow> http_reply) \<Rightarrow> bib_state \<Rightarrow> bib_entry
     \<Rightarrow> bib_state \<times> py_exn option" where
  "entry_step api_key net st0 entry =
     (let st = st0\<lparr>total_count := total_count st0 + 1\<rparr>;
          title = entry_get entry ''title'';
          author = entry_get entry ''author'';
          entry_key = entry_get entry ''ID''
      in
      if title = [] then (st\<lparr>issues := issues st @ [RefMissingTitle entry_key]\<rparr>, None)
      else
        (let search_result = search_reference api_key (net (lookups st)) title author;
             st = st\<lparr>lookups := lookups st @ [(title, author)]\<rparr>
         in
         case getitem search_result ''success'' of
           Inl e \<Rightarrow> (st, Some e)
         | Inr success \<Rightarrow>
             if \<not> truthy success then
               (st\<lparr>issues := issues st @ [RefVerifyFailed entry_key (get_error search_result)]\<rparr>, None)
             else
               (case getitem search_result ''found'' of
                  Inl e \<Rightarrow> (st, Some e)
                | Inr found \<Rightarrow>
                    if \<not> truthy found then
                      (st\<lparr>issues := issues st @ [RefMaybeFake entry_key title]\<rparr>, None)
                    else (st\<lparr>verified_count := verified_count st + 1\<rparr>, None))))"

text \<open>The loop: an exception ends it and goes to the handler of the \<^verbatim>\<open>try\<close> block.\<close>

fun entries_loop ::
  "pystr option \<Rightarrow> ((pystr \<times> pystr) list \<Rightarrow> pystr \<Rightarrow> http_reply) \<Rightarrow> bib_state \<Rightarrow> bib_entry list
     \<Rightarrow> bib_state \<times> py_exn option" where
  "entries_loop api_key net st [] = (st, None)"
| "entries_loop api_key net st (entry # entries) =
     (case entry_step api_key net st entry of
        (st', Some e) \<Rightarrow> (st', Some e)
      | (st', None) \<Rightarrow> entries_loop api_key net st' entries)"

definition bib_report :: "bib_state \<Rightarrow> finding" where
  "bib_report st =
     [''has_issues'' \<mapsto> VBool (0 < length (issues st)), ''issues'' \<mapsto> VIssues (issues st),
      ''verified_count'' \<mapsto> VInt (int (verified_count st)),
      ''total_count'' \<mapsto> VInt (int (total_count st))]"

text \<open>The state in which the analyzer returns.\<close>

definition bib_final ::
  "filesystem \<Rightarrow> pystr option \<Rightarrow> ((pystr \<times> pystr) list \<Rightarrow> pystr \<Rightarrow> http_reply) \<Rightarrow> pystr
     \<Rightarrow> bib_state" where
  "bib_final fs api_key net bib_file_path =
     (let st = \<lparr>issues = [], verified_count = 0, total_count = 0, lookups = []\<rparr> in
      case load_bib fs bib_file_path of
        Inl e \<Rightarrow> st\<lparr>issues := issues st @ [BibParseError e]\<rparr>
      | Inr entries \<Rightarrow>
          (case entries_loop api_key net st entries of
             (st', Some e) \<Rightarrow> st'\<lparr>issues := issues st' @ [BibParseError e]\<rparr>
           | (st', None) \<Rightarrow> st'))"

definition verify_bib_references ::
  "filesystem \<Rightarrow> pystr option \<Rightarrow> ((pystr \<times> pystr) list \<Rightarrow> pystr \<Rightarrow> http_reply) \<Rightarrow> pystr
     \<Rightarrow> finding" where
  "verify_bib_references fs api_key net bib_file_path =
     (if \<not> os_path_exists fs bib_file_path then
        [''has_issues'' \<mapsto> VBool True, ''issues'' \<mapsto> VIssues [BibFileMissing bib_file_path],
         ''verified_count'' \<mapsto> VInt 0, ''total_count'' \<mapsto> VInt 0]
      else bib_report (bib_final fs api_key net bib_file_path))"

text \<open>The issues that report a missing title.\<close>

fun is_missing_title :: "issue \<Rightarrow> bool" where
  "is_missing_title (RefMissingTitle k) = True"
| "is_missing_title x = False"

text \<open>Title and author of an entry, as the loop reads them.\<close>

definition title_author :: "bib_entry \<Rightarrow> pystr \<times> pystr" where
  "title_author entry = (entry_get entry ''title'', entry_get entry ''author'')"

section \<open>Floating-point numbers\<close>

text \<open>
  A float is a binary64 number. A finite one is a rational number, and every operation
  used here (a decimal literal, the true division of two integers, an addition) gives
  the exact result rounded to the nearest binary64 number, ties to the even significand.
  \<open>fl\<close> is this rounding on the normal range: \<open>e\<close> is the exponent of \<open>x\<close>
  (\<open>2 ^ e \<le> \<bar>x\<bar> < 2 ^ (e + 1)\<close>) and \<open>u\<close> the distance between neighbouring
  binary64 numbers there. No number below overflows or underflows.
\<close>

definition round_half_even :: "rat \<Rightarrow> int" where
  "round_half_even x =
     (let f = \<lfloor>x\<rfloor>; d = x - of_int f in
      if d < 1 / 2 then f else if 1 / 2 < d then f + 1 else if even f then f else f + 1)"

definition pow2 :: "int \<Rightarrow> rat" where
  "pow2 e = (if 0 \<le> e then 2 ^ nat e else 1 / 2 ^ nat (- e))"

definition fl :: "rat \<Rightarrow> rat" where
  "fl x =
     (if x = 0 then 0
      else
        (let a = \<bar>x\<bar>;
             d = bitlen (fst (quotient_of a)) - bitlen (snd (quotient_of a));
             e = (if pow2 d \<le> a then d else d - 1);
             u = pow2 (e - 52)
         in (if x < 0 then - 1 else 1) * of_int (round_half_even (a / u)) * u))"

text \<open>\<^verbatim>\<open>a / b\<close> on integers, and \<^verbatim>\<open>x + y\<close> on floats.\<close>

definition true_div :: "nat \<Rightarrow> nat \<Rightarrow> py_exn + rat" where
  "true_div a b = (if b = 0 then Inl ZeroDivisionError else Inr (fl (of_nat a / of_nat b)))"

definition float_add :: "rat \<Rightarrow> rat \<Rightarrow> rat" where
  "float_add x y = fl (x + y)"

text \<open>
  \<^verbatim>\<open>statistics.median\<close> of a list of integers: the middle item of the sorted list, or
  half the sum of the two middle ones as a float; it raises on an empty list.
\<close>

definition median :: "nat list \<Rightarrow> py_exn + pyval" where
  "median data =
     (let xs = sort data; n = length xs in
      if n = 0 then Inl StatisticsError
      else if n mod 2 = 1 then Inr (VInt (int (xs ! (n div 2))))
      else Inr (VFloat (fl (of_nat (xs ! (n div 2 - 1) + xs ! (n div 2)) / 2))))"

section \<open>The sparsity analyzer\<close>

text \<open>
  \<^verbatim>\<open>verify_sparse_content\<close>, lines 91 to 183. \<^verbatim>\<open>total_chars\<close>,
  \<^verbatim>\<open>total_chars_no_spaces\<close> and \<^verbatim>\<open>mean_length\<close> are computed and never read;
  \<^verbatim>\<open>statistics.mean\<close> raises where \<^verbatim>\<open>statistics.median\<close> does.

  \<^verbatim>\<open>re.split(r'\n\s*\n', s)\<close>. At a newline the pattern matches when the run of
  whitespace after it holds another newline, and then (the star is greedy) up to the
  last newline of that run. \<open>match_blank\<close> gives the text after the match.
\<close>

definition upto_last_newline :: "pystr \<Rightarrow> pystr" where
  "upto_last_newline run = rev (dropWhile (\<lambda>c. c \<noteq> 10) (rev run))"

definition match_blank :: "pystr \<Rightarrow> pystr option" where
  "match_blank s =
     (case s of
        [] \<Rightarrow> None
      | c # r \<Rightarrow>
          if c = 10 \<and> upto_last_newline (takeWhile is_space r) \<noteq> [] then
            Some (drop (length (upto_last_newline (takeWhile is_space r))) r)
          else None)"

lemma match_blank_shorter: "match_blank s = Some rest \<Longrightarrow> length rest < length s"
  by (auto simp: match_blank_def split: list.splits if_splits)

function split_blank :: "pystr \<Rightarrow> pystr list" where
  "split_blank [] = [[]]"
| "split_blank (c # cs) =
     (case match_blank (c # cs) of
        Some rest \<Rightarrow> [] # split_blank rest
      | None \<Rightarrow> (case split_blank cs of [] \<Rightarrow> [[c]] | l # ls \<Rightarrow> (c # l) # ls))"
  by pat_completeness auto
termination
  by (relation "measure length") (auto dest: match_blank_shorter)

text \<open>\<^verbatim>\<open>'\n'.join(xs)\<close>.\<close>

fun join_lines :: "pystr list \<Rightarrow> pystr" where
  "join_lines [] = []"
| "join_lines [x] = x"
| "join_lines (x # y # r) = x @ 10 # join_lines (y # r)"

text \<open>\<^verbatim>\<open>re.match(r'^#{1,6}\s+', line)\<close>; 35 is the hash sign.\<close>

definition is_heading :: "pystr \<Rightarrow> bool" where
  "is_heading =
     rx_one (\<lambda>c. c = 35) (rx_upto 5 (\<lambda>c. c = 35) (rx_plus is_space rx_accept))"

text \<open>
  The loop over the lines of a section; its state is \<^verbatim>\<open>paragraphs\<close> and
  \<^verbatim>\<open>current_para\<close>.
\<close>

fun line_loop :: "pystr list \<times> pystr list \<Rightarrow> pystr list \<Rightarrow> pystr list \<times> pystr list" where
  "line_loop (paragraphs, current_para) [] = (paragraphs, current_para)"
| "line_loop (paragraphs, current_para) (line0 # lines) =
     (let line = strip line0 in
      if line \<noteq> [] then
        (if is_heading line then
           (if current_para \<noteq> [] then
              line_loop (paragraphs @ [join_lines current_para], []) lines
            else line_loop (paragraphs, current_para) lines)
         else line_loop (paragraphs, current_para @ [line]) lines)
      else if current_para \<noteq> [] then
        line_loop (paragraphs @ [join_lines current_para], []) lines
      else line_loop (paragraphs, current_para) lines)"

fun section_loop :: "pystr list \<Rightarrow> pystr list \<Rightarrow> pystr list" where
  "section_loop paragraphs [] = paragraphs"
| "section_loop paragraphs (section # sections) =
     (if strip section \<noteq> [] then
        (case line_loop (paragraphs, []) (split_nl section) of
           (paragraphs', current_para) \<Rightarrow>
             if current_para \<noteq> [] then
               section_loop (paragraphs' @ [join_lines current_para]) sections
             else section_loop paragraphs' sections)
      else section_loop paragraphs sections)"

text \<open>
  The paragraphs that the analysis keeps: line 100 to line 125, with the filter
  \<^verbatim>\<open>[p.strip() for p in paragraphs if p.strip() and len(p.strip()) > 20]\<close>.
\<close>

definition split_paragraphs :: "pystr \<Rightarrow> pystr list" where
  "split_paragraphs content =
     map strip (filter (\<lambda>p. strip p \<noteq> [] \<and> 20 < length (strip p))
       (section_loop [] (split_blank (strip content))))"

text \<open>
  The five patterns of \<^verbatim>\<open>list_patterns\<close>, each after its \<^verbatim>\<open>^\<close>. The code points are
  those of the bullet (8226), of the characters for "number", "chapter", "section" and
  "article" (31532, 31456, 33410, 26465), of the numerals from one to ten and of the
  ideographic comma (12289).
\<close>

definition dot_or_paren :: "nat \<Rightarrow> bool" where
  "dot_or_paren c = (c = 46 \<or> c = 41)"

definition cjk_numeral :: "nat \<Rightarrow> bool" where
  "cjk_numeral c = (c = 19968 \<or> c = 20108 \<or> c = 19977 \<or> c = 22235 \<or> c = 20116 \<or>
     c = 20845 \<or> c = 19971 \<or> c = 20843 \<or> c = 20061 \<or> c = 21313)"

definition list_patterns :: "unicode_tables \<Rightarrow> (pystr \<Rightarrow> bool) list" where
  "list_patterns U =
     [rx_star is_space (rx_plus (is_decimal U) (rx_one dot_or_paren (rx_star is_space rx_accept))),
      rx_star is_space (rx_one ascii_letter (rx_one dot_or_paren (rx_star is_space rx_accept))),
      rx_star is_space (rx_one (\<lambda>c. c = 45 \<or> c = 42 \<or> c = 43 \<or> c = 8226)
        (rx_star is_space rx_accept)),
      rx_star is_space (rx_one (\<lambda>c. c = 31532) (rx_plus (is_decimal U)
        (rx_one (\<lambda>c. c = 31456 \<or> c = 33410 \<or> c = 26465) (rx_star is_space rx_accept)))),
      rx_star is_space (rx_plus cjk_numeral (rx_one (\<lambda>c. c = 46 \<or> c = 12289)
        (rx_star is_space rx_accept)))]"

text \<open>The inner loop over the patterns (it stops at the first that is found), and the outer one.\<close>

fun matches_list_pattern :: "(pystr \<Rightarrow> bool) list \<Rightarrow> pystr \<Rightarrow> bool" where
  "matches_list_pattern [] para = False"
| "matches_list_pattern (pattern # rest) para =
     (if search_multiline pattern para then True else matches_list_pattern rest para)"

fun count_list_like :: "unicode_tables \<Rightarrow> pystr list \<Rightarrow> nat" where
  "count_list_like U [] = 0"
| "count_list_like U (para # rest) =
     (if matches_list_pattern (list_patterns U) para then 1 + count_list_like U rest
      else count_list_like U rest)"

text \<open>
  One threshold check: if the ratio is above the threshold, an issue is appended and the
  score grows. The state is \<^verbatim>\<open>issues\<close> and \<^verbatim>\<open>sparsity_score\<close>.
\<close>

definition threshold_check ::
  "rat \<Rightarrow> rat \<Rightarrow> (rat \<Rightarrow> issue) \<Rightarrow> rat \<Rightarrow> issue list \<times> rat \<Rightarrow> issue list \<times> rat" where
  "threshold_check ratio threshold message increment st =
     (if threshold < ratio then (fst st @ [message ratio], float_add (snd st) increment) else st)"

definition verify_sparse_content :: "unicode_tables \<Rightarrow> pystr \<Rightarrow> py_exn + finding" where
  "verify_sparse_content U content =
     (let paragraphs = split_paragraphs content in
      if paragraphs = [] then
        Inr [''has_issues'' \<mapsto> VBool True, ''issues'' \<mapsto> VIssues [NoMeaningfulParagraphs],
             ''sparsity_score'' \<mapsto> VFloat (fl 1)]
      else
        (let paragraph_lengths = map length paragraphs in
         case median paragraph_lengths of
           Inl e \<Rightarrow> Inl e
         | Inr median_length \<Rightarrow>
         (case true_div (length (filter (\<lambda>p. p < 300) paragraph_lengths)) (length paragraph_lengths) of
           Inl e \<Rightarrow> Inl e
         | Inr short_para_ratio \<Rightarrow>
         (case true_div (length (filter (\<lambda>p. p < 100) paragraph_lengths)) (length paragraph_lengths) of
           Inl e \<Rightarrow> Inl e
         | Inr very_short_ratio \<Rightarrow>
         (case true_div (count_list_like U paragraphs) (length paragraphs) of
           Inl e \<Rightarrow> Inl e
         | Inr list_ratio \<Rightarrow>
             (let st = threshold_check list_ratio (fl (3 / 10)) TooManyListLike (fl (2 / 10))
                        (threshold_check very_short_ratio (fl (4 / 10)) TooManyVeryShort (fl (2 / 10))
                          (threshold_check short_para_ratio (fl (6 / 10)) TooManyShort (fl (3 / 10))
                            ([], fl 0)))
              in Inr [''has_issues'' \<mapsto> VBool (0 < length (fst st)), ''issues'' \<mapsto> VIssues (fst st),
                      ''sparsity_score'' \<mapsto> VFloat (snd st),
                      ''paragraph_count'' \<mapsto> VInt (int (length paragraphs)),
                      ''median_length'' \<mapsto> median_length]))))))"

text \<open>
  Texts on which the paragraphs can be read off: a plain block is not empty, holds no
  whitespace and does not start with a hash sign; \<open>join_blank\<close> puts an empty line
  between the blocks.
\<close>

definition plain_block :: "pystr \<Rightarrow> bool" where
  "plain_block w = (w \<noteq> [] \<and> list_all (\<lambda>c. \<not> is_space c) w \<and> hd w \<noteq> 35)"

fun join_blank :: "pystr list \<Rightarrow> pystr" where
  "join_blank [] = []"
| "join_blank [w] = w"
| "join_blank (w # v # r) = w @ 10 # 10 # join_blank (v # r)"

section \<open>The stereotype analyzer\<close>

text \<open>
  \<^verbatim>\<open>verify_stereotype_content\<close>, lines 185 to 239. \<^verbatim>\<open>content.split('\n\n')\<close> cuts at every
  pair of newlines, from the left.
\<close>

fun split_double_newline :: "pystr \<Rightarrow> pystr list" where
  "split_double_newline (a # b # cs) =
     (if a = 10 \<and> b = 10 then [] # split_double_newline cs
      else (case split_double_newline (b # cs) of [] \<Rightarrow> [[a]] | l # ls \<Rightarrow> (a # l) # ls))"
| "split_double_newline cs = [cs]"

text \<open>The twelve phrases; each ends with the fullwidth comma, 65292.\<close>

definition stereotype_words :: "pystr list" where
  "stereotype_words =
     [[39318, 20808, 65292], [20854, 27425, 65292], [20877, 27425, 65292],
      [26368, 21518, 65292], [20877, 32773, 65292],
      [32508, 19978, 25152, 36848, 65292], [20540, 24471, 27880, 24847, 30340, 26159, 65292],
      [24635, 32780, 35328, 20043, 65292], [25442, 21477, 35805, 35828, 65292],
      [27627, 26080, 30097, 38382, 65292], [26174, 32780, 26131, 35265, 65292],
      [20247, 25152, 21608, 30693, 65292]]"

text \<open>
  The three patterns of \<^verbatim>\<open>bold_patterns\<close> with their descriptions. They are tried with
  \<^verbatim>\<open>re.match\<close>, at the start of the paragraph. The dot matches every character but the
  newline; the colon is the fullwidth one (65306) or the ASCII one.
\<close>

definition bold_title :: "pystr \<Rightarrow> bool" where
  "bold_title =
     rx_lit (asc ''**'') (rx_one (\<lambda>c. c \<noteq> 10) (rx_upto 14 (\<lambda>c. c \<noteq> 10)
       (rx_lit (asc ''**'') (rx_one (\<lambda>c. c = 65306 \<or> c = 58) rx_accept))))"

definition bold_patterns :: "unicode_tables \<Rightarrow> ((pystr \<Rightarrow> bool) \<times> pystr) list" where
  "bold_patterns U =
     [(bold_title,
       [27573, 33853, 20197, 21152, 31895, 30701, 35821, 21644, 20882, 21495, 24320, 22836]),
      (rx_plus (is_decimal U) (rx_lit (asc ''.'') (rx_star is_space bold_title)),
       [25968, 23383, 24207, 21495, 43, 21152, 31895, 26631, 39064]),
      (rx_star is_space (rx_lit (asc ''-'') (rx_star is_space bold_title)),
       [21015, 34920, 39033, 43, 21152, 31895, 26631, 39064])]"

text \<open>
  The state of the loops: the flag of the current paragraph, the counter and the list of
  expressions found. \<open>record_match\<close> is the five lines that both inner loops run on a
  match.
\<close>

record stereotype_state =
  has_stereotype :: bool
  paragraphs_with_stereotype :: nat
  found_stereotype_words :: "pystr list"

definition record_match :: "stereotype_state \<Rightarrow> pystr \<Rightarrow> stereotype_state" where
  "record_match st w =
     (let st1 = (if \<not> has_stereotype st
                 then st\<lparr>paragraphs_with_stereotype := paragraphs_with_stereotype st + 1,
                         has_stereotype := True\<rparr>
                 else st)
      in if w \<notin> set (found_stereotype_words st1)
         then st1\<lparr>found_stereotype_words := found_stereotype_words st1 @ [w]\<rparr>
         else st1)"

fun word_loop :: "pystr \<Rightarrow> stereotype_state \<Rightarrow> pystr list \<Rightarrow> stereotype_state" where
  "word_loop paragraph st [] = st"
| "word_loop paragraph st (word # rest) =
     (if contains paragraph word then word_loop paragraph (record_match st word) rest
      else word_loop paragraph st rest)"

fun bold_loop :: "pystr \<Rightarrow> stereotype_state \<Rightarrow> ((pystr \<Rightarrow> bool) \<times> pystr) list \<Rightarrow> stereotype_state" where
  "bold_loop paragraph st [] = st"
| "bold_loop paragraph st ((pattern, description) # rest) =
     (if pattern paragraph then record_match st description
      else bold_loop paragraph st rest)"

definition paragraph_step :: "unicode_tables \<Rightarrow> stereotype_state \<Rightarrow> pystr \<Rightarrow> stereotype_state" where
  "paragraph_step U st paragraph =
     bold_loop paragraph
       (word_loop paragraph (st\<lparr>has_stereotype := False\<rparr>) stereotype_words)
       (bold_patterns U)"

fun paragraph_loop :: "unicode_tables \<Rightarrow> stereotype_state \<Rightarrow> pystr list \<Rightarrow> stereotype_state" where
  "paragraph_loop U st [] = st"
| "paragraph_loop U st (paragraph # rest) = paragraph_loop U (paragraph_step U st paragraph) rest"

definition stereotype_paragraphs :: "pystr \<Rightarrow> pystr list" where
  "stereotype_paragraphs content =
     map strip (filter (\<lambda>p. strip p \<noteq> []) (split_double_newline content))"

definition verify_stereotype_content :: "unicode_tables \<Rightarrow> pystr \<Rightarrow> finding" where
  "verify_stereotype_content U content =
     (let paragraphs = stereotype_paragraphs content;
          st = paragraph_loop U
                 \<lparr>has_stereotype = False, paragraphs_with_stereotype = 0,
                  found_stereotype_words = []\<rparr> paragraphs;
          issues = (if found_stereotype_words st \<noteq> []
                    then [StereotypeFound (found_stereotype_words st)] else [])
      in [''has_issues'' \<mapsto> VBool (0 < length issues), ''issues'' \<mapsto> VIssues issues,
          ''found_expressions'' \<mapsto> VStrs (found_stereotype_words st),
          ''affected_paragraphs'' \<mapsto> VInt (int (paragraphs_with_stereotype st)),
          ''total_paragraphs'' \<mapsto> VInt (int (length paragraphs))])"

text \<open>
  What matches in one paragraph, in the order of the scan: the phrases it contains, in
  the order of the table, then the description of the first bold pattern that matches.
\<close>

fun first_bold :: "pystr \<Rightarrow> ((pystr \<Rightarrow> bool) \<times> pystr) list \<Rightarrow> pystr list" where
  "first_bold paragraph [] = []"
| "first_bold paragraph ((pattern, description) # rest) =
     (if pattern paragraph then [description] else first_bold paragraph rest)"

definition matched_expressions :: "unicode_tables \<Rightarrow> pystr \<Rightarrow> pystr list" where
  "matched_expressions U paragraph =
     filter (contains paragraph) stereotype_words @ first_bold paragraph (bold_patterns U)"

text \<open>
  A list without its repetitions, each item where it is first seen: the head stays, and
  is taken out of what follows.
\<close>

fun first_seen :: "'a list \<Rightarrow> 'a list" where
  "first_seen [] = []"
| "first_seen (x # xs) = x # filter (\<lambda>y. y \<noteq> x) (first_seen xs)"

text \<open>Appending to a list, one by one, the items of another that it does not hold yet.\<close>

fun add_new :: "'a list \<Rightarrow> 'a list \<Rightarrow> 'a list" where
  "add_new acc [] = acc"
| "add_new acc (w # ws) = add_new (if w \<notin> set acc then acc @ [w] else acc) ws"

text \<open>
  The tables that hold no character beyond ASCII, for inputs on which the tables are
  not consulted beyond ASCII, or where the answer does not depend on them.
\<close>

definition ascii_tables :: unicode_tables where
  "ascii_tables = \<lparr>u_alnum = (\<lambda>c. False), u_decimal = (\<lambda>c. False), u_digit = (\<lambda>c. False)\<rparr>"

section \<open>Example inputs\<close>

text \<open>
  A bibliography of three entries: \<^verbatim>\<open>a\<close> with a title and an author, \<^verbatim>\<open>b\<close> without a
  title, \<^verbatim>\<open>c\<close> with a title only. A file system on which every path exists and is parsed
  to these entries, and a path is absolute when it starts with a slash. A network that
  answers the first lookup with one organic result and every later one with none.
\<close>

definition entry_a :: bib_entry where
  "entry_a = [''ID'' \<mapsto> asc ''a'', ''title'' \<mapsto> asc ''T1'', ''author'' \<mapsto> asc ''X'']"

definition entry_b :: bib_entry where
  "entry_b = [''ID'' \<mapsto> asc ''b'']"

definition entry_c :: bib_entry where
  "entry_c = [''ID'' \<mapsto> asc ''c'', ''title'' \<mapsto> asc ''T3'']"

definition example_fs :: filesystem where
  "example_fs = \<lparr>os_path_isabs = (\<lambda>p. startswith p (asc ''/'')), os_path_exists = (\<lambda>p. True),
     load_bib = (\<lambda>p. Inr [entry_a, entry_b, entry_c])\<rparr>"

definition example_net :: "(pystr \<times> pystr) list \<Rightarrow> pystr \<Rightarrow> http_reply" where
  "example_net calls query =
     (if calls = [] then Reply 200 (Inr (JObj [(asc ''organic'', JArr [JNum 1])]))
      else Reply 200 (Inr (JObj [])))"

text \<open>The state of the bibliography loop before the first entry.\<close>

definition initial_state :: bib_state where
  "initial_state = \<lparr>issues = [], verified_count = 0, total_count = 0, lookups = []\<rparr>"

text \<open>A file system for images: only the file \<^verbatim>\<open>/b\<close> exists.\<close>

definition image_fs :: filesystem where
  "image_fs = \<lparr>os_path_isabs = (\<lambda>p. startswith p (asc ''/'')), os_path_exists = (\<lambda>p. p = asc ''/b''),
     load_bib = (\<lambda>p. Inr [])\<rparr>"

section \<open>Evaluation\<close>

text \<open>The definitions that the simplifier unfolds to run the model on a concrete input.\<close>

lemmas rx_defs = rx_one_def rx_plus_def rx_lit_def rx_accept_def

lemmas class_defs = ascii_letter_def ascii_digit_def is_space_def is_word_def is_decimal_def
  is_digit_char_def operand_char_def dot_or_paren_def cjk_numeral_def

lemmas match_defs = match_image_def match_citation_def match_bracket_def

text \<open>The bounded repetition, unfolded on a numeral.\<close>

lemma rx_upto_numeral:
  "rx_upto (numeral n) P k s
     = (k s \<or> (case s of [] \<Rightarrow> False | c # cs \<Rightarrow> P c \<and> rx_upto (pred_numeral n) P k cs))"
  by (simp add: numeral_eq_Suc)

lemma rx_upto_one:
  "rx_upto 1 P k s = (k s \<or> (case s of [] \<Rightarrow> False | c # cs \<Rightarrow> P c \<and> k cs))"
  unfolding One_nat_def by (cases s) simp_all

section \<open>Lemmas on the sparsity analyzer\<close>

text \<open>The floating-point numbers of the analyzer, computed.\<close>

lemma fl_zero: "fl 0 = 0"
  by (simp add: fl_def)

lemma fl_one: "fl 1 = 1"
  by code_simp

lemma float_thresholds:
  "fl (3 / 5) < fl (7 / 10)" "fl (2 / 5) < fl (1 / 2)" "\<not> fl (3 / 10) < 0"
  by code_simp+

lemma float_score: "float_add (float_add 0 (fl (3 / 10))) (fl (1 / 5)) = 1 / 2"
  by code_simp

lemma dropWhile_none: "\<forall>x\<in>set xs. \<not> P x \<Longrightarrow> dropWhile P xs = xs"
  by (cases xs) auto

lemma strip_plain:
  assumes "plain_block w"
  shows "strip w = w"
proof -
  have ns: "\<forall>c\<in>set w. \<not> is_space c"
    using assms by (simp add: plain_block_def list_all_iff)
  then have "\<forall>c\<in>set (rev w). \<not> is_space c"
    by simp
  then show ?thesis
    using ns by (simp add: strip_def dropWhile_none)
qed

lemma is_space_newline: "is_space 10"
  by (simp add: is_space_def)

lemma plain_no_newline: "plain_block w \<Longrightarrow> 10 \<notin> set w"
  using is_space_newline by (auto simp: plain_block_def list_all_iff)

lemma split_nl_no_newline: "10 \<notin> set w \<Longrightarrow> split_nl w = [w]"
  by (induction w) auto

lemma not_heading_plain: "plain_block w \<Longrightarrow> \<not> is_heading w"
  by (cases w) (auto simp: plain_block_def is_heading_def rx_one_def)

lemma split_blank_no_newline: "10 \<notin> set w \<Longrightarrow> split_blank w = [w]"
  by (induction w) (auto simp: match_blank_def)

lemma split_blank_block:
  "10 \<notin> set w \<Longrightarrow> \<not> is_space c \<Longrightarrow>
   split_blank (w @ 10 # 10 # c # rest) = w # split_blank (c # rest)"
proof (induction w)
  case Nil
  then show ?case
    by (simp add: match_blank_def upto_last_newline_def is_space_newline)
next
  case (Cons a w)
  then show ?case
    by (simp add: match_blank_def)
qed

lemma join_blank_hd: "plain_block v \<Longrightarrow> \<exists>c rest. join_blank (v # r) = c # rest \<and> \<not> is_space c"
  by (cases v; cases r) (auto simp: plain_block_def)

lemma split_blank_join:
  "list_all plain_block ws \<Longrightarrow> ws \<noteq> [] \<Longrightarrow> split_blank (join_blank ws) = ws"
proof (induction ws rule: join_blank.induct)
  case 1
  then show ?case by simp
next
  case (2 w)
  then show ?case by (simp add: split_blank_no_newline plain_no_newline)
next
  case (3 w v r)
  obtain c rest where j: "join_blank (v # r) = c # rest" and c: "\<not> is_space c"
    using join_blank_hd [of v r] 3 by auto
  from 3 have "split_blank (join_blank (v # r)) = v # r" by simp
  with j c 3 show ?case
    using split_blank_block [of w c rest] by (simp add: plain_no_newline)
qed

lemma join_blank_plain_ends:
  "list_all plain_block ws \<Longrightarrow> ws \<noteq> [] \<Longrightarrow>
   join_blank ws \<noteq> [] \<and> \<not> is_space (hd (join_blank ws)) \<and> \<not> is_space (last (join_blank ws))"
  by (induction ws rule: join_blank.induct)
    (auto simp: plain_block_def list_all_iff)

lemma strip_ends:
  assumes "s \<noteq> []" and "\<not> is_space (hd s)" and "\<not> is_space (last s)"
  shows "strip s = s"
proof -
  have a: "dropWhile is_space s = s"
    using assms(1,2) by (cases s) auto
  have b: "dropWhile is_space (rev s) = rev s"
    using assms(1,3) by (cases s rule: rev_cases) auto
  show ?thesis
    by (simp add: strip_def a b)
qed

lemma line_loop_plain:
  "plain_block w \<Longrightarrow> line_loop (ps, []) (split_nl w) = (ps, [w])"
  by (simp add: split_nl_no_newline plain_no_newline strip_plain not_heading_plain)
    (simp add: plain_block_def)

lemma section_loop_plain:
  "list_all plain_block ws \<Longrightarrow> section_loop ps ws = ps @ ws"
proof (induction ws arbitrary: ps)
  case Nil
  show ?case by simp
next
  case (Cons w ws)
  then have w: "plain_block w" and ws: "list_all plain_block ws"
    by simp_all
  have "strip w \<noteq> []"
    using w by (simp add: strip_plain plain_block_def)
  then show ?case
    using Cons.IH [OF ws, of "ps @ [w]"] by (simp add: line_loop_plain [OF w])
qed

lemma split_paragraphs_join:
  assumes "list_all plain_block ws" and "ws \<noteq> []"
  shows "split_paragraphs (join_blank ws) = filter (\<lambda>p. 20 < length p) ws"
proof -
  have s: "strip (join_blank ws) = join_blank ws"
    using join_blank_plain_ends [OF assms] by (simp add: strip_ends)
  have f: "filter (\<lambda>p. strip p \<noteq> [] \<and> 20 < length (strip p)) ws = filter (\<lambda>p. 20 < length p) ws"
    using assms(1) by (intro filter_cong) (auto simp: list_all_iff strip_plain)
  have m: "map strip (filter (\<lambda>p. 20 < length p) ws) = filter (\<lambda>p. 20 < length p) ws"
    using assms(1) by (intro map_idI) (auto simp: list_all_iff strip_plain)
  show ?thesis
    by (simp add: split_paragraphs_def s split_blank_join [OF assms] section_loop_plain [OF assms(1)] f m)
qed

lemma after_newline_none: "10 \<notin> set s \<Longrightarrow> after_newline m s = False"
  by (induction s) auto

lemma letters_not_list_like:
  "matches_list_pattern (list_patterns U) (replicate (Suc (Suc n)) 97) = False"
  by (simp add: list_patterns_def search_multiline_def after_newline_none rx_defs class_defs)

lemma fl_half: "fl (1 / 2) = 1 / 2"
  by code_simp

lemma plain_replicate: "0 < n \<Longrightarrow> plain_block (replicate n 97)"
  by (cases n) (auto simp: plain_block_def is_space_def list_all_iff)

lemma count_list_like_filter:
  "count_list_like U ps = length (filter (matches_list_pattern (list_patterns U)) ps)"
  by (induction ps) simp_all

lemma median_nonempty:
  assumes "xs \<noteq> []"
  shows "\<exists>m. median xs = Inr m"
proof -
  have "length (sort xs) = length xs"
    by simp
  with assms have "sort xs \<noteq> []"
    by (metis length_0_conv)
  then show ?thesis
    by (simp add: median_def Let_def)
qed

text \<open>The two shapes of the result: without paragraphs, and with some.\<close>

lemma sparse_empty:
  "split_paragraphs content = [] \<Longrightarrow>
   verify_sparse_content U content
     = Inr [''has_issues'' \<mapsto> VBool True, ''issues'' \<mapsto> VIssues [NoMeaningfulParagraphs],
            ''sparsity_score'' \<mapsto> VFloat 1]"
  by (simp add: verify_sparse_content_def fl_one)

lemma sparse_nonempty:
  assumes "split_paragraphs content \<noteq> []"
  shows "\<exists>st m. verify_sparse_content U content
     = Inr [''has_issues'' \<mapsto> VBool (0 < length (fst st)), ''issues'' \<mapsto> VIssues (fst st),
            ''sparsity_score'' \<mapsto> VFloat (snd st),
            ''paragraph_count'' \<mapsto> VInt (int (length (split_paragraphs content))),
            ''median_length'' \<mapsto> m]"
proof -
  obtain m where m: "median (map length (split_paragraphs content)) = Inr m"
    using median_nonempty [of "map length (split_paragraphs content)"] assms by auto
  show ?thesis
    using assms by (simp add: verify_sparse_content_def Let_def m true_div_def) blast
qed

section \<open>Properties of the formula analyzer\<close>

lemma greek_in_line_kind:
  "x \<in> set (greek_in_line i l table) \<Longrightarrow> issue_kind x = 0 \<and> issue_line x = i"
  by (induction table) (auto split: if_splits)

lemma symbols_in_line_kind:
  "x \<in> set (symbols_in_line i l table) \<Longrightarrow> issue_kind x = 1 \<and> issue_line x = i"
  by (induction table) (auto split: if_splits)

lemma patterns_in_line_kind:
  "x \<in> set (patterns_in_line U i l table) \<Longrightarrow> issue_kind x = 2 \<and> issue_line x = i"
  by (induction table) (auto split: if_splits)

lemma greek_pass_kind:
  "x \<in> set (greek_pass i ls) \<Longrightarrow> issue_kind x = 0 \<and> i \<le> issue_line x"
proof (induction ls arbitrary: i)
  case Nil
  then show ?case by simp
next
  case (Cons line ls)
  then show ?case
    using greek_in_line_kind [of x i "remove_images line" greek_letters]
    by (fastforce split: if_splits dest: Suc_leD)
qed

lemma symbol_pass_kind:
  "x \<in> set (symbol_pass i ls) \<Longrightarrow> issue_kind x = 1 \<and> i \<le> issue_line x"
proof (induction ls arbitrary: i)
  case Nil
  then show ?case by simp
next
  case (Cons line ls)
  then show ?case
    using symbols_in_line_kind [of x i "remove_images line" math_symbols]
    by (fastforce split: if_splits dest: Suc_leD)
qed

lemma pattern_pass_kind:
  "x \<in> set (pattern_pass U i ls) \<Longrightarrow> issue_kind x = 2 \<and> i \<le> issue_line x"
proof (induction ls arbitrary: i)
  case Nil
  then show ?case by simp
next
  case (Cons line ls)
  then show ?case
    using patterns_in_line_kind [of x U i "remove_images line" math_patterns]
    by (fastforce split: if_splits dest: Suc_leD)
qed

text \<open>Within one pass the issues follow the lines.\<close>

lemma same_line_sorted:
  assumes "\<And>x. x \<in> set xs \<Longrightarrow> issue_line x = i"
  shows "sorted_wrt (\<lambda>a b. issue_line a \<le> issue_line b) xs"
  using assms by (induction xs) auto

lemma greek_pass_sorted: "sorted_wrt (\<lambda>a b. issue_line a \<le> issue_line b) (greek_pass i ls)"
proof (induction ls arbitrary: i)
  case Nil
  show ?case by simp
next
  case (Cons line ls)
  have here: "sorted_wrt (\<lambda>a b. issue_line a \<le> issue_line b)
      (greek_in_line i (remove_images line) greek_letters)"
    by (rule same_line_sorted) (simp add: greek_in_line_kind)
  have across: "issue_line a \<le> issue_line b"
    if "a \<in> set (greek_in_line i (remove_images line) greek_letters)"
      and "b \<in> set (greek_pass (Suc i) ls)" for a b
    using greek_in_line_kind [OF that(1)] greek_pass_kind [OF that(2)] by simp
  show ?case
    using Cons.IH [of "Suc i"] here across by (simp add: sorted_wrt_append)
qed

lemma symbol_pass_sorted: "sorted_wrt (\<lambda>a b. issue_line a \<le> issue_line b) (symbol_pass i ls)"
proof (induction ls arbitrary: i)
  case Nil
  show ?case by simp
next
  case (Cons line ls)
  have here: "sorted_wrt (\<lambda>a b. issue_line a \<le> issue_line b)
      (symbols_in_line i (remove_images line) math_symbols)"
    by (rule same_line_sorted) (simp add: symbols_in_line_kind)
  have across: "issue_line a \<le> issue_line b"
    if "a \<in> set (symbols_in_line i (remove_images line) math_symbols)"
      and "b \<in> set (symbol_pass (Suc i) ls)" for a b
    using symbols_in_line_kind [OF that(1)] symbol_pass_kind [OF that(2)] by simp
  show ?case
    using Cons.IH [of "Suc i"] here across by (simp add: sorted_wrt_append)
qed

lemma pattern_pass_sorted:
  "sorted_wrt (\<lambda>a b. issue_line a \<le> issue_line b) (pattern_pass U i ls)"
proof (induction ls arbitrary: i)
  case Nil
  show ?case by simp
next
  case (Cons line ls)
  have here: "sorted_wrt (\<lambda>a b. issue_line a \<le> issue_line b)
      (patterns_in_line U i (remove_images line) math_patterns)"
    by (rule same_line_sorted) (simp add: patterns_in_line_kind)
  have across: "issue_line a \<le> issue_line b"
    if "a \<in> set (patterns_in_line U i (remove_images line) math_patterns)"
      and "b \<in> set (pattern_pass U (Suc i) ls)" for a b
    using patterns_in_line_kind [OF that(1)] pattern_pass_kind [OF that(2)] by simp
  show ?case
    using Cons.IH [of "Suc i"] here across by (simp add: sorted_wrt_append)
qed

lemma one_kind_sorted:
  assumes "sorted_wrt (\<lambda>a b. issue_line a \<le> issue_line b) xs"
    and "\<And>x. x \<in> set xs \<Longrightarrow> issue_kind x = k"
  shows "sorted_wrt kind_then_line xs"
  using assms by (induction xs) (auto simp: kind_then_line_def)

lemma issues_of_latex: "issues_of (verify_latex_formulas U content) = latex_issues U content"
  by (simp add: verify_latex_formulas_def issues_of_def Let_def)

text \<open>The formula analyzer on a summation sign, a newline and an alpha.\<close>

lemma latex_sigma_alpha:
  "latex_issues U [8721, 10, 945] = [BareGreek 2 [945], BareSymbol 1 [8721]]"
  by (simp add: latex_issues_def has_dollar_def asc_def greek_letters_def math_symbols_def
      math_patterns_def assignment_pattern_def power_pattern_def subscript_pattern_def
      rx_defs class_defs match_defs)

text \<open>
  Claim C1, as stated, fails. On the two lines that hold a summation sign and an alpha,
  the symbol is on line 1 and the Greek letter on line 2, and the issue of the Greek
  letter comes first: the list is not in the order of the lines.
\<close>

theorem latex_not_line_ordered:
  "issues_of (verify_latex_formulas ascii_tables [8721, 10, 945])
     = [BareGreek 2 [945], BareSymbol 1 [8721]]
   \<and> \<not> sorted_wrt line_then_kind (issues_of (verify_latex_formulas ascii_tables [8721, 10, 945]))"
  by (simp add: issues_of_latex latex_sigma_alpha line_then_kind_def)

text \<open>
  Claim C1, amended. For every input text the issues of the formula analyzer are
  ordered by kind first (all issues of bare Greek letters, then all issues of math
  symbols, then all issues of bare expressions), and by line number among the issues of
  one kind.
\<close>

theorem latex_issues_kind_then_line:
  "sorted_wrt kind_then_line (issues_of (verify_latex_formulas U content))"
proof -
  let ?ls = "split_nl content"
  have g: "sorted_wrt kind_then_line (greek_pass 1 ?ls)"
    by (rule one_kind_sorted [OF greek_pass_sorted]) (simp add: greek_pass_kind)
  have s: "sorted_wrt kind_then_line (symbol_pass 1 ?ls)"
    by (rule one_kind_sorted [OF symbol_pass_sorted]) (simp add: symbol_pass_kind)
  have p: "sorted_wrt kind_then_line (pattern_pass U 1 ?ls)"
    by (rule one_kind_sorted [OF pattern_pass_sorted]) (simp add: pattern_pass_kind)
  have gs: "kind_then_line a b" if "a \<in> set (greek_pass 1 ?ls)"
    and "b \<in> set (symbol_pass 1 ?ls) \<union> set (pattern_pass U 1 ?ls)" for a b
    using greek_pass_kind [OF that(1)] that(2) symbol_pass_kind [of b 1 ?ls]
      pattern_pass_kind [of b U 1 ?ls]
    by (auto simp: kind_then_line_def)
  have sp: "kind_then_line a b" if "a \<in> set (symbol_pass 1 ?ls)"
    and "b \<in> set (pattern_pass U 1 ?ls)" for a b
    using symbol_pass_kind [OF that(1)] pattern_pass_kind [OF that(2)]
    by (simp add: kind_then_line_def)
  show ?thesis
    using g s p gs sp
    by (simp add: issues_of_latex latex_issues_def Let_def sorted_wrt_append)
qed

text \<open>
  The amended claim on a text of two lines, \<^verbatim>\<open>x = 1\<close> with an alpha and then a summation
  sign with a beta: the two Greek letters, then the symbol of line 2, then the
  expression of line 1.
\<close>

lemma latex_two_lines:
  "latex_issues ascii_tables (asc ''x = 1 '' @ [945, 10, 8721, 946])
     = [BareGreek 1 [945], BareGreek 2 [946], BareSymbol 2 [8721], BareMathExpr 1]"
  by (simp add: latex_issues_def has_dollar_def asc_def greek_letters_def math_symbols_def
      math_patterns_def assignment_pattern_def power_pattern_def subscript_pattern_def
      rx_defs class_defs match_defs ascii_tables_def)

theorem latex_issues_kind_then_line_witness:
  "issues_of (verify_latex_formulas ascii_tables (asc ''x = 1 '' @ [945, 10, 8721, 946]))
     = [BareGreek 1 [945], BareGreek 2 [946], BareSymbol 2 [8721], BareMathExpr 1]
   \<and> sorted_wrt kind_then_line
       [BareGreek 1 [945], BareGreek 2 [946], BareSymbol 2 [8721], BareMathExpr 1]"
  using latex_issues_kind_then_line [of ascii_tables "asc ''x = 1 '' @ [945, 10, 8721, 946]"]
  by (simp add: issues_of_latex latex_two_lines)

section \<open>Properties of the citation analyzer\<close>

lemma issues_of_citations:
  "findall_citations content \<noteq> [] \<Longrightarrow>
   issues_of (verify_citations U fs content bib_file_path)
     = invalid_loop U (findall_brackets (remove_images content))
       @ bib_check fs bib_file_path (findall_citations content)"
  by (simp add: verify_citations_def issues_of_def Let_def)

text \<open>
  Every item of \<^verbatim>\<open>invalid_citations\<close> starts with the opening bracket, which is no digit:
  \<^verbatim>\<open>invalid.isdigit()\<close> is false for each of them.
\<close>

lemma match_bracket_not_digit: "match_bracket s = Some (m, rest) \<Longrightarrow> \<not> isdigit U m"
  by (auto simp: match_bracket_def isdigit_def is_digit_char_def ascii_digit_def
      split: list.splits if_splits)

lemma findall_brackets_not_digit: "m \<in> set (findall_brackets s) \<Longrightarrow> \<not> isdigit U m"
proof (induction s rule: findall_brackets.induct)
  case 1
  then show ?case by simp
next
  case (2 c cs)
  show ?case
  proof (cases "match_bracket (c # cs)")
    case None
    with 2 show ?thesis by simp
  next
    case (Some found)
    obtain k rest where found: "found = (k, rest)"
      by (cases found)
    from 2 Some found match_bracket_not_digit [of "c # cs" k rest U] show ?thesis
      by auto
  qed
qed

lemma invalid_loop_no_digits:
  "(\<And>m. m \<in> set ms \<Longrightarrow> \<not> isdigit U m) \<Longrightarrow>
   invalid_loop U ms = map NonStandardCitation (filter (\<lambda>m. \<not> contains m (asc ''http'')) ms)"
  by (induction ms) simp_all

text \<open>
  Claim C2 is not what the code does. On a text with a citation marker (and no
  bibliography) the citation analyzer emits the non-standard-bracket issue for every
  bracketed span that does not start with \<^verbatim>\<open>@\<close> and does not contain \<^verbatim>\<open>http\<close>, one issue for
  each, purely numeric or not: the string it tests with \<^verbatim>\<open>isdigit\<close> is the whole match,
  brackets included. On the text \<^verbatim>\<open>[@k] [123]\<close> it emits the issue for \<^verbatim>\<open>[123]\<close>; on
  \<^verbatim>\<open>[@k] [http://a.b]\<close> it emits none.
\<close>

theorem citations_numeric_span_flagged:
  "(findall_citations content \<noteq> [] \<longrightarrow>
      issues_of (verify_citations U fs content None)
        = map NonStandardCitation
            (filter (\<lambda>m. \<not> contains m (asc ''http'')) (findall_brackets (remove_images content))))
   \<and> issues_of (verify_citations U fs (asc ''[@k] [123]'') None)
       = [NonStandardCitation (asc ''[123]'')]
   \<and> issues_of (verify_citations U fs (asc ''[@k] [http://a.b]'') None) = []"
proof -
  have general: "issues_of (verify_citations U fs content None)
      = map NonStandardCitation
          (filter (\<lambda>m. \<not> contains m (asc ''http'')) (findall_brackets (remove_images content)))"
    if "findall_citations content \<noteq> []"
    using invalid_loop_no_digits [of "findall_brackets (remove_images content)" U]
      findall_brackets_not_digit [of _ "remove_images content" U]
    by (simp add: issues_of_citations [OF that] bib_check_def)
  have numeric: "issues_of (verify_citations U fs (asc ''[@k] [123]'') None)
      = [NonStandardCitation (asc ''[123]'')]"
    by (simp add: verify_citations_def issues_of_def asc_def match_defs bib_check_def isdigit_def
        class_defs Let_def)
  have link: "issues_of (verify_citations U fs (asc ''[@k] [http://a.b]'') None) = []"
    by (simp add: verify_citations_def issues_of_def asc_def match_defs bib_check_def isdigit_def
        class_defs Let_def)
  from general numeric link show ?thesis
    by blast
qed

text \<open>
  The same on a text with two markers, a numeric span, a span of words, a link and an
  image: the numeric span and the span of words are reported, the link and the image
  are not.
\<close>

theorem citations_numeric_span_flagged_witness:
  "findall_citations (asc ''[@k] [123] [see] [http://a.b] ![img](u) [@j]'') = [asc ''k'', asc ''j'']
   \<and> findall_brackets (remove_images (asc ''[@k] [123] [see] [http://a.b] ![img](u) [@j]''))
       = [asc ''[123]'', asc ''[see]'', asc ''[http://a.b]'']
   \<and> issues_of (verify_citations ascii_tables image_fs
         (asc ''[@k] [123] [see] [http://a.b] ![img](u) [@j]'') None)
       = [NonStandardCitation (asc ''[123]''), NonStandardCitation (asc ''[see]'')]"
proof -
  let ?text = "asc ''[@k] [123] [see] [http://a.b] ![img](u) [@j]''"
  have citations: "findall_citations ?text = [asc ''k'', asc ''j'']"
    by (simp add: asc_def match_defs)
  have spans: "findall_brackets (remove_images ?text) = [asc ''[123]'', asc ''[see]'', asc ''[http://a.b]'']"
    by (simp add: asc_def match_defs)
  have kept: "filter (\<lambda>m. \<not> contains m (asc ''http'')) [asc ''[123]'', asc ''[see]'', asc ''[http://a.b]'']
      = [asc ''[123]'', asc ''[see]'']"
    by (simp add: asc_def)
  from citations have some: "findall_citations ?text \<noteq> []"
    by simp
  from citations_numeric_span_flagged [where content = ?text and U = ascii_tables and fs = image_fs]
  have "issues_of (verify_citations ascii_tables image_fs ?text None)
      = map NonStandardCitation
          (filter (\<lambda>m. \<not> contains m (asc ''http'')) (findall_brackets (remove_images ?text)))"
    using some by blast
  then show ?thesis
    unfolding spans kept using citations spans by simp
qed

section \<open>Properties of the sparsity analyzer\<close>

text \<open>
  Claim C3 is not what the code does. When no paragraph is kept, the analyzer returns
  \<^verbatim>\<open>has_issues=true\<close>, the one issue and the score 1.0, as claimed, and nothing else: the
  fields \<^verbatim>\<open>paragraph_count\<close> and \<^verbatim>\<open>median_length\<close> are missing. The empty text is such an
  input. When a paragraph is kept, the four fields are there.
\<close>

theorem sparse_empty_lacks_fields:
  "(split_paragraphs content = [] \<longrightarrow>
      (\<exists>r. verify_sparse_content U content = Inr r
         \<and> r ''has_issues'' = Some (VBool True)
         \<and> r ''issues'' = Some (VIssues [NoMeaningfulParagraphs])
         \<and> r ''sparsity_score'' = Some (VFloat 1)
         \<and> r ''paragraph_count'' = None \<and> r ''median_length'' = None))
   \<and> (split_paragraphs content \<noteq> [] \<longrightarrow>
      (\<exists>r xs s m. verify_sparse_content U content = Inr r
         \<and> r ''issues'' = Some (VIssues xs) \<and> r ''sparsity_score'' = Some (VFloat s)
         \<and> r ''paragraph_count'' = Some (VInt (int (length (split_paragraphs content))))
         \<and> r ''median_length'' = Some m))
   \<and> split_paragraphs [] = []
   \<and> verify_sparse_content U []
       = Inr [''has_issues'' \<mapsto> VBool True, ''issues'' \<mapsto> VIssues [NoMeaningfulParagraphs],
              ''sparsity_score'' \<mapsto> VFloat 1]"
proof -
  have none: "split_paragraphs [] = []"
    by (simp add: split_paragraphs_def strip_def)
  have empty: "\<exists>r. verify_sparse_content U content = Inr r
         \<and> r ''has_issues'' = Some (VBool True)
         \<and> r ''issues'' = Some (VIssues [NoMeaningfulParagraphs])
         \<and> r ''sparsity_score'' = Some (VFloat 1)
         \<and> r ''paragraph_count'' = None \<and> r ''median_length'' = None"
    if "split_paragraphs content = []"
    by (simp add: sparse_empty [OF that])
  have some: "\<exists>r xs s m. verify_sparse_content U content = Inr r
         \<and> r ''issues'' = Some (VIssues xs) \<and> r ''sparsity_score'' = Some (VFloat s)
         \<and> r ''paragraph_count'' = Some (VInt (int (length (split_paragraphs content))))
         \<and> r ''median_length'' = Some m"
    if "split_paragraphs content \<noteq> []"
    using sparse_nonempty [OF that, of U] by auto
  show ?thesis
    using none empty some sparse_empty [OF none, of U] by blast
qed

text \<open>
  The same on a text with a heading and one short paragraph, \<^verbatim>\<open># Title\<close>, an empty line
  and \<^verbatim>\<open>short text\<close>: nothing longer than 20 characters is left, and the result has no
  \<^verbatim>\<open>paragraph_count\<close>. On a text of 21 letters one paragraph is kept and counted.
\<close>

theorem sparse_empty_lacks_fields_witness:
  "split_paragraphs (asc ''# Title'' @ [10, 10] @ asc ''short text'') = []
   \<and> (\<exists>r. verify_sparse_content ascii_tables (asc ''# Title'' @ [10, 10] @ asc ''short text'') = Inr r
         \<and> r ''has_issues'' = Some (VBool True)
         \<and> r ''issues'' = Some (VIssues [NoMeaningfulParagraphs])
         \<and> r ''sparsity_score'' = Some (VFloat 1)
         \<and> r ''paragraph_count'' = None \<and> r ''median_length'' = None)
   \<and> split_paragraphs (replicate 21 97) \<noteq> []
   \<and> (\<exists>r xs s m. verify_sparse_content ascii_tables (replicate 21 97) = Inr r
         \<and> r ''issues'' = Some (VIssues xs) \<and> r ''sparsity_score'' = Some (VFloat s)
         \<and> r ''paragraph_count'' = Some (VInt 1) \<and> r ''median_length'' = Some m)"
proof -
  have none: "split_paragraphs (asc ''# Title'' @ [10, 10] @ asc ''short text'') = []"
    by (simp add: split_paragraphs_def asc_def strip_def is_space_def match_blank_def
        upto_last_newline_def is_heading_def rx_defs rx_upto_numeral)
  have one: "split_paragraphs (replicate 21 97) = [replicate 21 97]"
    using split_paragraphs_join [of "[replicate 21 97]"] by (simp add: plain_replicate)
  from sparse_empty_lacks_fields [of "asc ''# Title'' @ [10, 10] @ asc ''short text''" ascii_tables]
  have first: "\<exists>r. verify_sparse_content ascii_tables (asc ''# Title'' @ [10, 10] @ asc ''short text'') = Inr r
         \<and> r ''has_issues'' = Some (VBool True)
         \<and> r ''issues'' = Some (VIssues [NoMeaningfulParagraphs])
         \<and> r ''sparsity_score'' = Some (VFloat 1)
         \<and> r ''paragraph_count'' = None \<and> r ''median_length'' = None"
    using none by blast
  from sparse_empty_lacks_fields [of "replicate 21 97" ascii_tables]
  have second: "\<exists>r xs s m. verify_sparse_content ascii_tables (replicate 21 97) = Inr r
         \<and> r ''issues'' = Some (VIssues xs) \<and> r ''sparsity_score'' = Some (VFloat s)
         \<and> r ''paragraph_count'' = Some (VInt 1) \<and> r ''median_length'' = Some m"
    by (simp add: one)
  from none one first second show ?thesis
    by simp
qed

section \<open>The invariant of the findings\<close>

lemma consistent_bib_report: "consistent (bib_report st)"
  by (simp add: consistent_def bib_report_def)

text \<open>
  Claim C4. For every input, the finding of each of the seven analyzers has
  \<^verbatim>\<open>has_issues\<close> equal to \<^verbatim>\<open>len(issues) > 0\<close>; the sparsity analyzer raises nothing and its
  finding is one of them.
\<close>

theorem findings_consistent:
  "(\<exists>r. verify_sparse_content U content = Inr r \<and> consistent r)
   \<and> consistent (verify_stereotype_content U content)
   \<and> consistent (verify_latex_formulas U content)
   \<and> consistent (verify_citations U fs content bib_file_path)
   \<and> consistent (verify_images fs content md_file_path)
   \<and> consistent (verify_code_blocks content)
   \<and> consistent (verify_bib_references fs api_key net bib_path)"
proof -
  have sparse: "\<exists>r. verify_sparse_content U content = Inr r \<and> consistent r"
  proof (cases "split_paragraphs content = []")
    case True
    then show ?thesis
      by (simp add: sparse_empty consistent_def)
  next
    case False
    from sparse_nonempty [OF False, of U] show ?thesis
      by (auto simp: consistent_def)
  qed
  have stereotype: "consistent (verify_stereotype_content U content)"
    by (simp add: verify_stereotype_content_def consistent_def Let_def)
  have latex: "consistent (verify_latex_formulas U content)"
    by (simp add: verify_latex_formulas_def consistent_def Let_def)
  have citations: "consistent (verify_citations U fs content bib_file_path)"
    by (simp add: verify_citations_def consistent_def Let_def)
  have images: "consistent (verify_images fs content md_file_path)"
    by (simp add: verify_images_def consistent_def Let_def)
  have code: "consistent (verify_code_blocks content)"
    by (simp add: verify_code_blocks_def consistent_def Let_def)
  have bib: "consistent (verify_bib_references fs api_key net bib_path)"
    by (simp add: verify_bib_references_def consistent_bib_report) (simp add: consistent_def)
  from sparse stereotype latex citations images code bib show ?thesis
    by simp
qed

section \<open>The thresholds of the sparsity analyzer\<close>

lemma length_filter_lengths:
  "length (filter (\<lambda>n. n < k) (map length ps)) = length (filter (\<lambda>p. length p < k) ps)"
  by (induction ps) simp_all

text \<open>
  Claim C5. For every document that is cut into exactly 10 kept paragraphs, of which
  exactly 7 are shorter than 300 characters, exactly 5 are shorter than 100 characters
  and none matches a list pattern, the sparsity analyzer returns the score 0.5 (the
  float \<open>fl (5 / 10)\<close>, which is one half) and exactly two issues, that of the short
  paragraphs with the ratio 0.7 and that of the very short paragraphs with the ratio
  0.5. The comparison with a threshold is strict: a ratio equal to its threshold adds
  no issue and leaves the score.
\<close>

theorem sparse_ten_paragraphs:
  assumes "length (split_paragraphs content) = 10"
    and "length (filter (\<lambda>p. length p < 300) (split_paragraphs content)) = 7"
    and "length (filter (\<lambda>p. length p < 100) (split_paragraphs content)) = 5"
    and "filter (matches_list_pattern (list_patterns U)) (split_paragraphs content) = []"
  shows "(\<exists>r. verify_sparse_content U content = Inr r
           \<and> r ''sparsity_score'' = Some (VFloat (fl (5 / 10)))
           \<and> r ''issues'' = Some (VIssues [TooManyShort (fl (7 / 10)), TooManyVeryShort (fl (5 / 10))])
           \<and> r ''has_issues'' = Some (VBool True)
           \<and> r ''paragraph_count'' = Some (VInt 10))
         \<and> fl (5 / 10) = 1 / 2
         \<and> threshold_check t t message increment st = st"
proof -
  let ?ps = "split_paragraphs content"
  have ne: "?ps \<noteq> []"
    using assms(1) by auto
  obtain m where m: "median (map length ?ps) = Inr m"
    using median_nonempty [of "map length ?ps"] ne by auto
  have short: "true_div (length (filter (\<lambda>p. p < 300) (map length ?ps))) (length (map length ?ps))
      = Inr (fl (7 / 10))"
    unfolding length_filter_lengths by (simp add: assms(1,2) true_div_def)
  have very: "true_div (length (filter (\<lambda>p. p < 100) (map length ?ps))) (length (map length ?ps))
      = Inr (fl (1 / 2))"
    unfolding length_filter_lengths by (simp add: assms(1,3) true_div_def)
  have listy: "true_div (count_list_like U ?ps) (length ?ps) = Inr 0"
    by (simp add: count_list_like_filter assms(1,4) true_div_def fl_zero)
  have checks: "threshold_check 0 (fl (3 / 10)) TooManyListLike (fl (2 / 10))
        (threshold_check (fl (1 / 2)) (fl (4 / 10)) TooManyVeryShort (fl (2 / 10))
          (threshold_check (fl (7 / 10)) (fl (6 / 10)) TooManyShort (fl (3 / 10)) ([], fl 0)))
      = ([TooManyShort (fl (7 / 10)), TooManyVeryShort (fl (1 / 2))], 1 / 2)"
    by (simp add: threshold_check_def float_thresholds float_score fl_zero)
  have result: "verify_sparse_content U content
      = Inr [''has_issues'' \<mapsto> VBool True,
             ''issues'' \<mapsto> VIssues [TooManyShort (fl (7 / 10)), TooManyVeryShort (fl (1 / 2))],
             ''sparsity_score'' \<mapsto> VFloat (1 / 2),
             ''paragraph_count'' \<mapsto> VInt 10,
             ''median_length'' \<mapsto> m]"
    unfolding verify_sparse_content_def Let_def
    by (simp only: ne if_False m short very listy sum.case checks) (simp add: assms(1))
  have strict: "threshold_check t t message increment st = st"
    by (simp add: threshold_check_def)
  show ?thesis
    by (simp add: result strict fl_half)
qed

lemma letters_not_list_like_numeral:
  "2 \<le> n \<Longrightarrow> matches_list_pattern (list_patterns U) (replicate n 97) = False"
proof -
  assume "2 \<le> n"
  then obtain k where "n = Suc (Suc k)"
    by (metis Suc_le_D numeral_2_eq_2 Suc_le_mono)
  then show ?thesis
    by (simp only: letters_not_list_like)
qed

text \<open>
  The claim on a document of ten paragraphs of the letter \<^verbatim>\<open>a\<close>, separated by empty lines:
  three of 300 characters, two of 100 and five of 21. Seven are shorter than 300 and five
  shorter than 100; the paragraphs of 300 and of 100 characters are at the bounds and do
  not count as shorter.
\<close>

theorem sparse_ten_paragraphs_witness:
  "length (split_paragraphs (join_blank
      [replicate 300 97, replicate 300 97, replicate 300 97, replicate 100 97, replicate 100 97,
       replicate 21 97, replicate 21 97, replicate 21 97, replicate 21 97, replicate 21 97])) = 10
   \<and> (\<exists>r. verify_sparse_content ascii_tables (join_blank
      [replicate 300 97, replicate 300 97, replicate 300 97, replicate 100 97, replicate 100 97,
       replicate 21 97, replicate 21 97, replicate 21 97, replicate 21 97, replicate 21 97]) = Inr r
        \<and> r ''sparsity_score'' = Some (VFloat (1 / 2))
        \<and> r ''issues'' = Some (VIssues [TooManyShort (fl (7 / 10)), TooManyVeryShort (1 / 2)])
        \<and> r ''has_issues'' = Some (VBool True)
        \<and> r ''paragraph_count'' = Some (VInt 10))"
proof -
  let ?ws = "[replicate 300 97, replicate 300 97, replicate 300 97, replicate 100 97,
      replicate 100 97, replicate 21 97, replicate 21 97, replicate 21 97, replicate 21 97,
      replicate 21 97] :: pystr list"
  have plain: "list_all plain_block ?ws"
    by (simp add: plain_replicate)
  have ps: "split_paragraphs (join_blank ?ws) = ?ws"
    using split_paragraphs_join [OF plain] by simp
  have h1: "length (split_paragraphs (join_blank ?ws)) = 10"
    unfolding ps by simp
  have h2: "length (filter (\<lambda>p. length p < 300) (split_paragraphs (join_blank ?ws))) = 7"
    unfolding ps by simp
  have h3: "length (filter (\<lambda>p. length p < 100) (split_paragraphs (join_blank ?ws))) = 5"
    unfolding ps by simp
  have h4: "filter (matches_list_pattern (list_patterns ascii_tables))
      (split_paragraphs (join_blank ?ws)) = []"
    unfolding ps by (simp add: letters_not_list_like_numeral)
  from sparse_ten_paragraphs [OF h1 h2 h3 h4]
  show ?thesis
    using h1 by (simp add: fl_half)
qed

section \<open>Properties of the web lookup\<close>

text \<open>What a decoded body gives: a dictionary that reports success and has a boolean under \<^verbatim>\<open>found\<close>.\<close>

lemma read_result_keys:
  "read_result result = Inr r \<Longrightarrow>
   r ''success'' = Some (VBool True) \<and> (\<exists>f. r ''found'' = Some (VBool f))"
  by (auto simp: read_result_def split: sum.splits bool.splits if_splits)

lemma try_request_keys:
  "try_request reply = Inr r \<Longrightarrow>
   \<exists>b. r ''success'' = Some (VBool b) \<and> (b \<longrightarrow> (\<exists>f. r ''found'' = Some (VBool f)))"
  by (auto simp: try_request_def split: http_reply.splits sum.splits if_splits
      dest: read_result_keys)

lemma search_reference_keys:
  "\<exists>b. search_reference api_key post title authors ''success'' = Some (VBool b) \<and>
     (b \<longrightarrow> (\<exists>f. search_reference api_key post title authors ''found'' = Some (VBool f)))"
proof (cases "api_key = None \<or> api_key = Some []")
  case True
  then show ?thesis by (auto simp: search_reference_def)
next
  case False
  show ?thesis
  proof (cases "try_request (post (build_query title authors))")
    case (Inl e)
    with False show ?thesis by (auto simp: search_reference_def)
  next
    case (Inr r)
    with False try_request_keys [OF Inr] show ?thesis by (auto simp: search_reference_def)
  qed
qed






section \<open>Properties of the bibliography analyzer\<close>

text \<open>One round of the loop on an entry without a title.\<close>

lemma entry_step_no_title:
  "entry_get entry ''title'' = [] \<Longrightarrow>
   entry_step api_key net st entry
     = (st\<lparr>total_count := total_count st + 1,
            issues := issues st @ [RefMissingTitle (entry_get entry ''ID'')]\<rparr>, None)"
  by (simp add: entry_step_def Let_def)

text \<open>
  One round on an entry with a title: it raises nothing, because the result of the lookup
  always has the keys that are read.
\<close>

lemma entry_step_title:
  fixes api_key net st entry
  defines "r \<equiv> search_reference api_key (net (lookups st)) (entry_get entry ''title'')
                 (entry_get entry ''author'')"
  assumes "entry_get entry ''title'' \<noteq> []"
  shows "snd (entry_step api_key net st entry) = None"
    and "total_count (fst (entry_step api_key net st entry)) = total_count st + 1"
    and "lookups (fst (entry_step api_key net st entry)) = lookups st @ [title_author entry]"
    and "verified_count (fst (entry_step api_key net st entry))
          = verified_count st +
            (if r ''success'' = Some (VBool True) \<and> r ''found'' = Some (VBool True) then 1 else 0)"
    and "filter is_missing_title (issues (fst (entry_step api_key net st entry)))
          = filter is_missing_title (issues st)"
proof -
  obtain b where b: "r ''success'' = Some (VBool b)"
    and f: "b \<longrightarrow> (\<exists>f. r ''found'' = Some (VBool f))"
    using search_reference_keys [of api_key "net (lookups st)" "entry_get entry ''title''"
        "entry_get entry ''author''"]
    unfolding r_def by blast
  show "snd (entry_step api_key net st entry) = None"
    using assms(2) b f unfolding r_def
    by (auto simp: entry_step_def Let_def getitem_def)
  show "total_count (fst (entry_step api_key net st entry)) = total_count st + 1"
    using assms(2) b f unfolding r_def
    by (auto simp: entry_step_def Let_def getitem_def)
  show "lookups (fst (entry_step api_key net st entry)) = lookups st @ [title_author entry]"
    using assms(2) b f unfolding r_def
    by (auto simp: entry_step_def Let_def getitem_def title_author_def)
  show "verified_count (fst (entry_step api_key net st entry))
          = verified_count st +
            (if r ''success'' = Some (VBool True) \<and> r ''found'' = Some (VBool True) then 1 else 0)"
    using assms(2) b f unfolding r_def
    by (auto simp: entry_step_def Let_def getitem_def)
  show "filter is_missing_title (issues (fst (entry_step api_key net st entry)))
          = filter is_missing_title (issues st)"
    using assms(2) b f unfolding r_def
    by (auto simp: entry_step_def Let_def getitem_def)
qed

lemma entry_step_never_raises: "snd (entry_step api_key net st entry) = None"
  by (cases "entry_get entry ''title'' = []")
    (simp_all add: entry_step_no_title entry_step_title(1))

lemma entry_step_total:
  "total_count (fst (entry_step api_key net st entry)) = total_count st + 1"
  by (cases "entry_get entry ''title'' = []")
    (simp_all add: entry_step_no_title entry_step_title(2))

lemma entry_step_lookups:
  "lookups (fst (entry_step api_key net st entry))
     = lookups st @ map title_author (filter (\<lambda>e. entry_get e ''title'' \<noteq> []) [entry])"
  by (cases "entry_get entry ''title'' = []")
    (simp_all add: entry_step_no_title entry_step_title(3))

lemma entry_step_verified:
  "verified_count st \<le> verified_count (fst (entry_step api_key net st entry))
   \<and> verified_count (fst (entry_step api_key net st entry)) \<le> verified_count st + 1"
  by (cases "entry_get entry ''title'' = []")
    (simp_all add: entry_step_no_title entry_step_title(4))

lemma entry_step_missing:
  "length (filter is_missing_title (issues (fst (entry_step api_key net st entry))))
     = length (filter is_missing_title (issues st))
       + length (filter (\<lambda>e. entry_get e ''title'' = []) [entry])"
  by (cases "entry_get entry ''title'' = []")
    (simp_all add: entry_step_no_title entry_step_title(5))

text \<open>The loop: it ends without an exception, and its counters follow the entries.\<close>

lemma entries_loop_counts:
  "snd (entries_loop api_key net st entries) = None
   \<and> total_count (fst (entries_loop api_key net st entries)) = total_count st + length entries
   \<and> lookups (fst (entries_loop api_key net st entries))
       = lookups st @ map title_author (filter (\<lambda>e. entry_get e ''title'' \<noteq> []) entries)
   \<and> verified_count (fst (entries_loop api_key net st entries)) \<le> verified_count st + length entries
   \<and> length (filter is_missing_title (issues (fst (entries_loop api_key net st entries))))
       = length (filter is_missing_title (issues st))
         + length (filter (\<lambda>e. entry_get e ''title'' = []) entries)"
proof (induction entries arbitrary: st)
  case Nil
  show ?case by simp
next
  case (Cons entry entries)
  obtain st' where step: "entry_step api_key net st entry = (st', None)"
    using entry_step_never_raises [of api_key net st entry]
    by (cases "entry_step api_key net st entry") simp
  have loop: "entries_loop api_key net st (entry # entries) = entries_loop api_key net st' entries"
    by (simp add: step)
  have t: "total_count st' = total_count st + 1"
    using entry_step_total [of api_key net st entry] by (simp add: step)
  have l: "lookups st' = lookups st @ map title_author (filter (\<lambda>e. entry_get e ''title'' \<noteq> []) [entry])"
    using entry_step_lookups [of api_key net st entry] by (simp add: step)
  have v: "verified_count st' \<le> verified_count st + 1"
    using entry_step_verified [of st api_key net entry] by (simp add: step)
  have m: "length (filter is_missing_title (issues st'))
      = length (filter is_missing_title (issues st))
        + length (filter (\<lambda>e. entry_get e ''title'' = []) [entry])"
    using entry_step_missing [of api_key net st entry] by (simp add: step)
  show ?case
    unfolding loop using Cons.IH [of st'] t l v m by auto
qed

text \<open>
  Claim C7. When the bibliography is read and parsed, the analyzer ends with
  \<open>total_count\<close> the number of entries; the lookups it made are those of the entries that
  have a title, one each and in order; and it reports as many missing-title issues as
  there are entries without a title. A round of the loop on an entry without a title
  adds one to \<open>total_count\<close>, appends the missing-title issue of the entry, makes no
  lookup and leaves \<open>verified_count\<close>. A round on an entry with a title adds one to
  \<open>total_count\<close>, makes one lookup, and adds one to \<open>verified_count\<close> exactly when the lookup
  has \<^verbatim>\<open>success\<close> and \<^verbatim>\<open>found\<close> true. When the file exists the finding reports this final
  state, and for every input the reported \<open>verified_count\<close> is at most the reported
  \<open>total_count\<close>.
\<close>

theorem bib_references_counts:
  "(load_bib fs path = Inr entries \<longrightarrow>
      total_count (bib_final fs api_key net path) = length entries
      \<and> lookups (bib_final fs api_key net path)
          = map title_author (filter (\<lambda>e. entry_get e ''title'' \<noteq> []) entries)
      \<and> length (filter is_missing_title (issues (bib_final fs api_key net path)))
          = length (filter (\<lambda>e. entry_get e ''title'' = []) entries))
   \<and> (entry_get entry ''title'' = [] \<longrightarrow>
        entry_step api_key net st entry
          = (st\<lparr>total_count := total_count st + 1,
                 issues := issues st @ [RefMissingTitle (entry_get entry ''ID'')]\<rparr>, None))
   \<and> (entry_get entry ''title'' \<noteq> [] \<longrightarrow>
        snd (entry_step api_key net st entry) = None
        \<and> total_count (fst (entry_step api_key net st entry)) = total_count st + 1
        \<and> lookups (fst (entry_step api_key net st entry)) = lookups st @ [title_author entry]
        \<and> verified_count (fst (entry_step api_key net st entry))
            = verified_count st +
              (if search_reference api_key (net (lookups st)) (entry_get entry ''title'')
                    (entry_get entry ''author'') ''success'' = Some (VBool True)
                  \<and> search_reference api_key (net (lookups st)) (entry_get entry ''title'')
                    (entry_get entry ''author'') ''found'' = Some (VBool True)
               then 1 else 0))
   \<and> verified_count (bib_final fs api_key net path) \<le> total_count (bib_final fs api_key net path)
   \<and> (os_path_exists fs path \<longrightarrow>
        verify_bib_references fs api_key net path = bib_report (bib_final fs api_key net path))
   \<and> (\<exists>v t. verify_bib_references fs api_key net path ''verified_count'' = Some (VInt v)
        \<and> verify_bib_references fs api_key net path ''total_count'' = Some (VInt t) \<and> v \<le> t)"
proof -
  let ?st0 = "\<lparr>issues = [], verified_count = 0, total_count = 0, lookups = []\<rparr>"
  have final: "bib_final fs api_key net path = fst (entries_loop api_key net ?st0 es)"
    if "load_bib fs path = Inr es" for es
    using that entries_loop_counts [of api_key net ?st0 es]
    by (cases "entries_loop api_key net ?st0 es") (simp add: bib_final_def)
  have parsed: "total_count (bib_final fs api_key net path) = length entries
      \<and> lookups (bib_final fs api_key net path)
          = map title_author (filter (\<lambda>e. entry_get e ''title'' \<noteq> []) entries)
      \<and> length (filter is_missing_title (issues (bib_final fs api_key net path)))
          = length (filter (\<lambda>e. entry_get e ''title'' = []) entries)"
    if "load_bib fs path = Inr entries"
    using entries_loop_counts [of api_key net ?st0 entries] by (simp add: final [OF that])
  have le: "verified_count (bib_final fs api_key net path) \<le> total_count (bib_final fs api_key net path)"
  proof (cases "load_bib fs path")
    case (Inl e)
    then show ?thesis by (simp add: bib_final_def)
  next
    case (Inr es)
    show ?thesis
      using entries_loop_counts [of api_key net ?st0 es] by (simp add: final [OF Inr])
  qed
  have report: "\<exists>v t. verify_bib_references fs api_key net path ''verified_count'' = Some (VInt v)
        \<and> verify_bib_references fs api_key net path ''total_count'' = Some (VInt t) \<and> v \<le> t"
    using le by (simp add: verify_bib_references_def bib_report_def)
  have reported: "verify_bib_references fs api_key net path = bib_report (bib_final fs api_key net path)"
    if "os_path_exists fs path"
    using that by (simp add: verify_bib_references_def)
  show ?thesis
    using parsed entry_step_no_title [of entry api_key net st] entry_step_title [of entry api_key net st]
      le report reported
    by simp
qed

text \<open>
  The claim on the example bibliography, with the credential \<^verbatim>\<open>key\<close>: three entries are
  counted, the entries \<^verbatim>\<open>a\<close> and \<^verbatim>\<open>c\<close> are looked up, \<^verbatim>\<open>a\<close> is verified, \<^verbatim>\<open>b\<close> gets the
  missing-title issue and \<^verbatim>\<open>c\<close> the issue of a reference that may not exist. From the
  initial state, the round on \<^verbatim>\<open>b\<close> makes no lookup and the round on \<^verbatim>\<open>a\<close> makes one and
  verifies.
\<close>

theorem bib_references_counts_witness:
  "total_count (bib_final example_fs (Some (asc ''key'')) example_net (asc ''refs.bib'')) = 3
   \<and> verified_count (bib_final example_fs (Some (asc ''key'')) example_net (asc ''refs.bib'')) = 1
   \<and> lookups (bib_final example_fs (Some (asc ''key'')) example_net (asc ''refs.bib''))
       = [(asc ''T1'', asc ''X''), (asc ''T3'', [])]
   \<and> issues (bib_final example_fs (Some (asc ''key'')) example_net (asc ''refs.bib''))
       = [RefMissingTitle (asc ''b''), RefMaybeFake (asc ''c'') (asc ''T3'')]
   \<and> entry_step (Some (asc ''key'')) example_net initial_state entry_b
       = (\<lparr>issues = [RefMissingTitle (asc ''b'')], verified_count = 0, total_count = 1,
            lookups = []\<rparr>, None)
   \<and> verified_count (fst (entry_step (Some (asc ''key'')) example_net initial_state entry_a)) = 1
   \<and> lookups (fst (entry_step (Some (asc ''key'')) example_net initial_state entry_a))
       = [(asc ''T1'', asc ''X'')]
   \<and> verify_bib_references example_fs (Some (asc ''key'')) example_net (asc ''refs.bib'')
         ''total_count'' = Some (VInt 3)"
proof -
  let ?k = "Some (asc ''key'')"
  let ?st = "bib_final example_fs ?k example_net (asc ''refs.bib'')"
  have load: "load_bib example_fs (asc ''refs.bib'') = Inr [entry_a, entry_b, entry_c]"
    by (simp add: example_fs_def)
  have here: "os_path_exists example_fs (asc ''refs.bib'')"
    by (simp add: example_fs_def)
  have titles: "entry_get entry_a ''title'' = asc ''T1''" "entry_get entry_b ''title'' = []"
    "entry_get entry_c ''title'' = asc ''T3''" "entry_get entry_a ''author'' = asc ''X''"
    "entry_get entry_c ''author'' = []" "entry_get entry_b ''ID'' = asc ''b''"
    by (simp_all add: entry_get_def entry_a_def entry_b_def entry_c_def)
  have nonempty: "asc ''T1'' \<noteq> []" "asc ''T3'' \<noteq> []"
    by (simp_all add: asc_def)
  have found: "search_reference ?k (example_net []) (asc ''T1'') (asc ''X'')
      = [''success'' \<mapsto> VBool True, ''found'' \<mapsto> VBool True,
         ''results'' \<mapsto> VJson (JArr [JNum 1])]"
    by (simp add: search_reference_def try_request_def read_result_def example_net_def asc_def)
  note all = bib_references_counts [where fs = example_fs and path = "asc ''refs.bib''"
      and entries = "[entry_a, entry_b, entry_c]" and api_key = ?k and net = example_net
      and st = initial_state]
  from all [where entry = entry_b]
  have counted: "total_count ?st = 3"
    "lookups ?st = [(asc ''T1'', asc ''X''), (asc ''T3'', [])]"
    and reported: "verify_bib_references example_fs ?k example_net (asc ''refs.bib'') = bib_report ?st"
    and round_b: "entry_step ?k example_net initial_state entry_b
      = (initial_state\<lparr>total_count := total_count initial_state + 1,
           issues := issues initial_state @ [RefMissingTitle (entry_get entry_b ''ID'')]\<rparr>, None)"
    using load here by (simp_all add: titles nonempty title_author_def)
  from all [where entry = entry_a]
  have round_a: "verified_count (fst (entry_step ?k example_net initial_state entry_a)) = 1"
    "lookups (fst (entry_step ?k example_net initial_state entry_a)) = [(asc ''T1'', asc ''X'')]"
    by (simp_all add: titles nonempty title_author_def initial_state_def found)
  have rest: "verified_count ?st = 1"
    "issues ?st = [RefMissingTitle (asc ''b''), RefMaybeFake (asc ''c'') (asc ''T3'')]"
    by (simp_all add: bib_final_def example_fs_def example_net_def entry_a_def entry_b_def
        entry_c_def entry_step_def Let_def entry_get_def search_reference_def try_request_def
        read_result_def getitem_def asc_def)
  have round_b': "entry_step ?k example_net initial_state entry_b
      = (\<lparr>issues = [RefMissingTitle (asc ''b'')], verified_count = 0, total_count = 1,
           lookups = []\<rparr>, None)"
    using round_b by (simp add: titles initial_state_def)
  show ?thesis
    using counted rest round_a round_b'
    by (simp add: reported bib_report_def)
qed

section \<open>Properties of the stereotype analyzer\<close>

lemma set_first_seen: "set (first_seen xs) = set xs"
  by (induction xs) auto

lemma distinct_first_seen: "distinct (first_seen xs)"
  by (induction xs) (auto simp: set_first_seen)

lemma add_new_append: "add_new acc (xs @ ys) = add_new (add_new acc xs) ys"
  by (induction xs arbitrary: acc) simp_all

lemma add_new_first_seen:
  "add_new acc xs = acc @ filter (\<lambda>x. x \<notin> set acc) (first_seen xs)"
proof (induction xs arbitrary: acc)
  case Nil
  show ?case by simp
next
  case (Cons x xs)
  show ?case
  proof (cases "x \<in> set acc")
    case True
    have "filter (\<lambda>y. y \<notin> set acc) (filter (\<lambda>y. y \<noteq> x) (first_seen xs))
        = filter (\<lambda>y. y \<notin> set acc) (first_seen xs)"
      using True by (auto intro: filter_cong)
    with True Cons.IH [of acc] show ?thesis by simp
  next
    case False
    have "filter (\<lambda>y. y \<notin> set (acc @ [x])) (first_seen xs)
        = filter (\<lambda>y. y \<notin> set acc) (filter (\<lambda>y. y \<noteq> x) (first_seen xs))"
      by (auto intro: filter_cong)
    with False Cons.IH [of "acc @ [x]"] show ?thesis by simp
  qed
qed

text \<open>What \<open>record_match\<close> does to each component of the state.\<close>

lemma record_match_found:
  "found_stereotype_words (record_match st w) = add_new (found_stereotype_words st) [w]"
  by (simp add: record_match_def Let_def)

lemma record_match_count:
  "paragraphs_with_stereotype (record_match st w)
     = paragraphs_with_stereotype st + (if has_stereotype st then 0 else 1)"
  by (simp add: record_match_def Let_def)

lemma record_match_flag: "has_stereotype (record_match st w)"
  by (simp add: record_match_def Let_def)

lemma word_loop_effect:
  "found_stereotype_words (word_loop p st ws)
     = add_new (found_stereotype_words st) (filter (contains p) ws)
   \<and> has_stereotype (word_loop p st ws) = (has_stereotype st \<or> filter (contains p) ws \<noteq> [])
   \<and> paragraphs_with_stereotype (word_loop p st ws)
       = paragraphs_with_stereotype st
         + (if \<not> has_stereotype st \<and> filter (contains p) ws \<noteq> [] then 1 else 0)"
proof (induction ws arbitrary: st)
  case Nil
  show ?case by simp
next
  case (Cons w ws)
  show ?case
  proof (cases "contains p w")
    case True
    with Cons.IH [of "record_match st w"] show ?thesis
      by (simp add: record_match_found record_match_count record_match_flag)
  next
    case False
    with Cons.IH [of st] show ?thesis by simp
  qed
qed

lemma bold_loop_effect:
  "found_stereotype_words (bold_loop p st bs)
     = add_new (found_stereotype_words st) (first_bold p bs)
   \<and> paragraphs_with_stereotype (bold_loop p st bs)
       = paragraphs_with_stereotype st
         + (if \<not> has_stereotype st \<and> first_bold p bs \<noteq> [] then 1 else 0)"
proof (induction bs arbitrary: st)
  case Nil
  show ?case by simp
next
  case (Cons b bs)
  obtain pattern description where b: "b = (pattern, description)"
    by (cases b)
  show ?case
  proof (cases "pattern p")
    case True
    then show ?thesis
      by (simp add: b record_match_found record_match_count)
  next
    case False
    with Cons.IH [of st] show ?thesis by (simp add: b)
  qed
qed

text \<open>One paragraph: the counter grows by one if something matches in it, by nothing otherwise.\<close>

lemma paragraph_step_effect:
  "found_stereotype_words (paragraph_step U st p)
     = add_new (found_stereotype_words st) (matched_expressions U p)
   \<and> paragraphs_with_stereotype (paragraph_step U st p)
       = paragraphs_with_stereotype st + (if matched_expressions U p \<noteq> [] then 1 else 0)"
  using word_loop_effect [of p "st\<lparr>has_stereotype := False\<rparr>" stereotype_words]
    bold_loop_effect [of p "word_loop p (st\<lparr>has_stereotype := False\<rparr>) stereotype_words"
      "bold_patterns U"]
  by (simp add: paragraph_step_def matched_expressions_def add_new_append)

lemma paragraph_loop_effect:
  "found_stereotype_words (paragraph_loop U st ps)
     = add_new (found_stereotype_words st) (concat (map (matched_expressions U) ps))
   \<and> paragraphs_with_stereotype (paragraph_loop U st ps)
       = paragraphs_with_stereotype st
         + length (filter (\<lambda>p. matched_expressions U p \<noteq> []) ps)"
proof (induction ps arbitrary: st)
  case Nil
  show ?case by simp
next
  case (Cons p ps)
  show ?case
    using Cons.IH [of "paragraph_step U st p"] paragraph_step_effect [of U st p]
    by (simp add: add_new_append)
qed

text \<open>
  The analyzer on the text of the specification: the characters U+9996 U+5148 U+FF0C
  and what follows, one paragraph with the first and the second phrase of the table.
\<close>

lemma stereotype_example_paragraphs:
  "stereotype_paragraphs
     [39318, 20808, 65292, 25105, 20204, 25552, 20986, 20102, 19968, 20010, 26032, 26041, 27861,
      12290, 20854, 27425, 65292, 25105, 20204, 39564, 35777, 20102, 36825, 20010, 26041, 27861,
      12290]
   = [[39318, 20808, 65292, 25105, 20204, 25552, 20986, 20102, 19968, 20010, 26032, 26041, 27861,
      12290, 20854, 27425, 65292, 25105, 20204, 39564, 35777, 20102, 36825, 20010, 26041, 27861,
      12290]]"
  by (simp add: stereotype_paragraphs_def strip_def is_space_def)

lemma stereotype_example_matches:
  "matched_expressions U
     [39318, 20808, 65292, 25105, 20204, 25552, 20986, 20102, 19968, 20010, 26032, 26041, 27861,
      12290, 20854, 27425, 65292, 25105, 20204, 39564, 35777, 20102, 36825, 20010, 26041, 27861,
      12290]
   = [[39318, 20808, 65292], [20854, 27425, 65292]]"
  by (simp add: matched_expressions_def stereotype_words_def bold_patterns_def bold_title_def
      rx_defs class_defs asc_def)

text \<open>
  Claim C8. The number of affected paragraphs is the number of paragraphs in which a
  phrase or a bold pattern matches, each counted once: a paragraph adds one to the
  counter if something matches in it and nothing otherwise, however many phrases and
  patterns match. The expressions found are the expressions matched in the
  paragraphs, in the order of the scan, each kept where it is first seen: no expression
  twice, none missing. On the text of one paragraph that holds the first and the second
  phrase, one paragraph is affected and the two phrases are found, the first before the
  second.
\<close>

theorem stereotype_counts_once_first_seen:
  "verify_stereotype_content U content ''affected_paragraphs''
     = Some (VInt (int (length (filter (\<lambda>p. matched_expressions U p \<noteq> [])
         (stereotype_paragraphs content)))))
   \<and> paragraphs_with_stereotype (paragraph_step U st p)
       = paragraphs_with_stereotype st + (if matched_expressions U p \<noteq> [] then 1 else 0)
   \<and> verify_stereotype_content U content ''found_expressions''
       = Some (VStrs (first_seen (concat (map (matched_expressions U)
           (stereotype_paragraphs content)))))
   \<and> distinct (first_seen (concat (map (matched_expressions U) (stereotype_paragraphs content))))
   \<and> set (first_seen (concat (map (matched_expressions U) (stereotype_paragraphs content))))
       = set (concat (map (matched_expressions U) (stereotype_paragraphs content)))
   \<and> verify_stereotype_content U
        [39318, 20808, 65292, 25105, 20204, 25552, 20986, 20102, 19968, 20010, 26032, 26041,
         27861, 12290, 20854, 27425, 65292, 25105, 20204, 39564, 35777, 20102, 36825, 20010,
         26041, 27861, 12290] ''affected_paragraphs'' = Some (VInt 1)
   \<and> verify_stereotype_content U
        [39318, 20808, 65292, 25105, 20204, 25552, 20986, 20102, 19968, 20010, 26032, 26041,
         27861, 12290, 20854, 27425, 65292, 25105, 20204, 39564, 35777, 20102, 36825, 20010,
         26041, 27861, 12290] ''found_expressions''
       = Some (VStrs [[39318, 20808, 65292], [20854, 27425, 65292]])"
proof -
  let ?st0 = "\<lparr>has_stereotype = False, paragraphs_with_stereotype = 0,
      found_stereotype_words = []\<rparr>"
  have affected: "verify_stereotype_content U c ''affected_paragraphs''
      = Some (VInt (int (length (filter (\<lambda>p. matched_expressions U p \<noteq> [])
          (stereotype_paragraphs c)))))" for c
    using paragraph_loop_effect [of U ?st0 "stereotype_paragraphs c"]
    by (simp add: verify_stereotype_content_def Let_def)
  have found: "verify_stereotype_content U c ''found_expressions''
      = Some (VStrs (first_seen (concat (map (matched_expressions U) (stereotype_paragraphs c)))))"
    for c
    using paragraph_loop_effect [of U ?st0 "stereotype_paragraphs c"]
    by (simp add: verify_stereotype_content_def Let_def add_new_first_seen)
  show ?thesis
    using paragraph_step_effect [of U st p]
    by (simp add: affected found distinct_first_seen set_first_seen
        stereotype_example_paragraphs stereotype_example_matches)
qed

text \<open>
  The claim on a text of three paragraphs: \<^verbatim>\<open>**ab**: \<close> followed by the first phrase, the
  first phrase alone, and \<^verbatim>\<open>plain\<close>. The first paragraph matches a phrase and a bold
  pattern and counts once; the phrase of the second paragraph is already found.
\<close>

theorem stereotype_counts_once_first_seen_witness:
  "verify_stereotype_content ascii_tables
     (asc ''**ab**: '' @ [39318, 20808, 65292, 10, 10, 39318, 20808, 65292, 10, 10] @ asc ''plain'')
     ''affected_paragraphs'' = Some (VInt 2)
   \<and> verify_stereotype_content ascii_tables
     (asc ''**ab**: '' @ [39318, 20808, 65292, 10, 10, 39318, 20808, 65292, 10, 10] @ asc ''plain'')
     ''found_expressions''
       = Some (VStrs [[39318, 20808, 65292],
           [27573, 33853, 20197, 21152, 31895, 30701, 35821, 21644, 20882, 21495, 24320, 22836]])"
proof -
  let ?text = "asc ''**ab**: '' @ [39318, 20808, 65292, 10, 10, 39318, 20808, 65292, 10, 10] @ asc ''plain''"
  have ps: "stereotype_paragraphs ?text
      = [asc ''**ab**: '' @ [39318, 20808, 65292], [39318, 20808, 65292], asc ''plain'']"
    by (simp add: stereotype_paragraphs_def strip_def is_space_def asc_def)
  have m1: "matched_expressions ascii_tables (asc ''**ab**: '' @ [39318, 20808, 65292])
      = [[39318, 20808, 65292],
         [27573, 33853, 20197, 21152, 31895, 30701, 35821, 21644, 20882, 21495, 24320, 22836]]"
    by (simp add: matched_expressions_def stereotype_words_def bold_patterns_def bold_title_def
        rx_defs class_defs asc_def ascii_tables_def rx_upto_numeral rx_upto_one)
  have m2: "matched_expressions ascii_tables [39318, 20808, 65292] = [[39318, 20808, 65292]]"
    by (simp add: matched_expressions_def stereotype_words_def bold_patterns_def bold_title_def
        rx_defs class_defs asc_def ascii_tables_def)
  have m3: "matched_expressions ascii_tables (asc ''plain'') = []"
    by (simp add: matched_expressions_def stereotype_words_def bold_patterns_def bold_title_def
        rx_defs class_defs asc_def ascii_tables_def)
  from stereotype_counts_once_first_seen [of ascii_tables ?text]
  have e1: "verify_stereotype_content ascii_tables ?text ''affected_paragraphs''
      = Some (VInt (int (length (filter (\<lambda>p. matched_expressions ascii_tables p \<noteq> [])
          (stereotype_paragraphs ?text)))))"
    and e2: "verify_stereotype_content ascii_tables ?text ''found_expressions''
      = Some (VStrs (first_seen (concat (map (matched_expressions ascii_tables)
          (stereotype_paragraphs ?text)))))"
    by blast+
  show ?thesis
    unfolding e1 e2 ps by (simp add: m1 m2 m3)
qed

section \<open>Properties of the image analyzer\<close>

lemma image_loop_first_failing:
  "image_loop fs images = List.map_filter (first_failing_check fs) images"
  by (induction images rule: image_loop.induct)
    (simp_all add: List.map_filter_simps first_failing_check_def)

lemma length_map_filter_le: "length (List.map_filter f xs) \<le> length xs"
  by (simp add: List.map_filter_def)

lemma issues_of_images:
  "issues_of (verify_images fs content md_file_path) = image_loop fs (findall_images content)"
  by (simp add: verify_images_def issues_of_def Let_def)

lemma findall_web_image:
  "findall_images (asc ''![web](https://example.com/image.png)'')
     = [(asc ''web'', asc ''https://example.com/image.png'')]"
  by (simp add: asc_def match_defs)

text \<open>
  Claim C9. The issues of the image analyzer are the verdicts of the first failing check
  on the extracted images, in their order: one issue at most for an image, the
  network-link issue if its target starts with \<^verbatim>\<open>http://\<close> or \<^verbatim>\<open>https://\<close>, else the
  relative-path issue if the target is not absolute, else the missing-file issue if it
  does not exist. An image whose target starts with \<^verbatim>\<open>https://\<close> gets the network-link
  issue whatever the file system says, and the text \<^verbatim>\<open>![web](https://example.com/image.png)\<close>
  gets this one issue.
\<close>

theorem images_first_failing_check:
  "issues_of (verify_images fs content md_file_path)
     = List.map_filter (first_failing_check fs) (findall_images content)
   \<and> length (issues_of (verify_images fs content md_file_path)) \<le> length (findall_images content)
   \<and> (startswith target (asc ''https://'') \<longrightarrow>
        image_loop fs [(alt_text, target)] = [ImageNetworkLink alt_text target])
   \<and> (\<not> startswith target (asc ''http://'') \<and> \<not> startswith target (asc ''https://'') \<and>
        \<not> os_path_isabs fs target \<longrightarrow>
        image_loop fs [(alt_text, target)] = [ImageRelativePath alt_text target])
   \<and> (\<not> startswith target (asc ''http://'') \<and> \<not> startswith target (asc ''https://'') \<and>
        os_path_isabs fs target \<and> \<not> os_path_exists fs target \<longrightarrow>
        image_loop fs [(alt_text, target)] = [ImageMissing target])
   \<and> (\<not> startswith target (asc ''http://'') \<and> \<not> startswith target (asc ''https://'') \<and>
        os_path_isabs fs target \<and> os_path_exists fs target \<longrightarrow>
        image_loop fs [(alt_text, target)] = [])
   \<and> issues_of (verify_images fs (asc ''![web](https://example.com/image.png)'') md_file_path)
       = [ImageNetworkLink (asc ''web'') (asc ''https://example.com/image.png'')]"
proof -
  have a: "issues_of (verify_images fs content md_file_path)
      = List.map_filter (first_failing_check fs) (findall_images content)"
    by (simp add: issues_of_images image_loop_first_failing)
  have b: "length (issues_of (verify_images fs content md_file_path)) \<le> length (findall_images content)"
    unfolding a by (rule length_map_filter_le)
  have c: "issues_of (verify_images fs (asc ''![web](https://example.com/image.png)'') md_file_path)
      = [ImageNetworkLink (asc ''web'') (asc ''https://example.com/image.png'')]"
    by (simp add: issues_of_images findall_web_image) (simp add: asc_def)
  show ?thesis using a b c by simp
qed

text \<open>
  The claim on a text with four images, on the file system where a path is absolute when
  it starts with a slash and only \<^verbatim>\<open>/b\<close> exists: a relative target, a missing file, an
  existing file and a network link; and each of the four images alone.
\<close>

theorem images_first_failing_check_witness:
  "issues_of (verify_images image_fs
      (asc ''![r](x.png) ![m](/a) ![e](/b) ![w](https://h/i.png)'') (asc ''/doc.md''))
     = [ImageRelativePath (asc ''r'') (asc ''x.png''), ImageMissing (asc ''/a''),
        ImageNetworkLink (asc ''w'') (asc ''https://h/i.png'')]
   \<and> image_loop image_fs [(asc ''w'', asc ''https://h/i.png'')]
       = [ImageNetworkLink (asc ''w'') (asc ''https://h/i.png'')]
   \<and> image_loop image_fs [(asc ''r'', asc ''x.png'')] = [ImageRelativePath (asc ''r'') (asc ''x.png'')]
   \<and> image_loop image_fs [(asc ''m'', asc ''/a'')] = [ImageMissing (asc ''/a'')]
   \<and> image_loop image_fs [(asc ''e'', asc ''/b'')] = []"
proof -
  let ?text = "asc ''![r](x.png) ![m](/a) ![e](/b) ![w](https://h/i.png)''"
  have images: "findall_images ?text
      = [(asc ''r'', asc ''x.png''), (asc ''m'', asc ''/a''), (asc ''e'', asc ''/b''),
         (asc ''w'', asc ''https://h/i.png'')]"
    by (simp add: asc_def match_defs)
  have verdicts: "List.map_filter (first_failing_check image_fs)
        [(asc ''r'', asc ''x.png''), (asc ''m'', asc ''/a''), (asc ''e'', asc ''/b''),
         (asc ''w'', asc ''https://h/i.png'')]
      = [ImageRelativePath (asc ''r'') (asc ''x.png''), ImageMissing (asc ''/a''),
         ImageNetworkLink (asc ''w'') (asc ''https://h/i.png'')]"
    by (simp add: List.map_filter_simps first_failing_check_def image_fs_def asc_def)
  have w: "startswith (asc ''https://h/i.png'') (asc ''https://'')"
    by (simp add: asc_def)
  have r: "\<not> startswith (asc ''x.png'') (asc ''http://'') \<and> \<not> startswith (asc ''x.png'') (asc ''https://'')
      \<and> \<not> os_path_isabs image_fs (asc ''x.png'')"
    by (simp add: image_fs_def asc_def)
  have m: "\<not> startswith (asc ''/a'') (asc ''http://'') \<and> \<not> startswith (asc ''/a'') (asc ''https://'')
      \<and> os_path_isabs image_fs (asc ''/a'') \<and> \<not> os_path_exists image_fs (asc ''/a'')"
    by (simp add: image_fs_def asc_def)
  have e: "\<not> startswith (asc ''/b'') (asc ''http://'') \<and> \<not> startswith (asc ''/b'') (asc ''https://'')
      \<and> os_path_isabs image_fs (asc ''/b'') \<and> os_path_exists image_fs (asc ''/b'')"
    by (simp add: image_fs_def asc_def)
  note all = images_first_failing_check [where fs = image_fs and content = ?text
      and md_file_path = "asc ''/doc.md''"]
  from all [where target = "asc ''https://h/i.png''" and alt_text = "asc ''w''"]
  have e1: "issues_of (verify_images image_fs ?text (asc ''/doc.md''))
        = List.map_filter (first_failing_check image_fs) (findall_images ?text)"
    and cw: "image_loop image_fs [(asc ''w'', asc ''https://h/i.png'')]
        = [ImageNetworkLink (asc ''w'') (asc ''https://h/i.png'')]"
    using w by blast+
  from all [where target = "asc ''x.png''" and alt_text = "asc ''r''"]
  have cr: "image_loop image_fs [(asc ''r'', asc ''x.png'')] = [ImageRelativePath (asc ''r'') (asc ''x.png'')]"
    using r by blast
  from all [where target = "asc ''/a''" and alt_text = "asc ''m''"]
  have cm: "image_loop image_fs [(asc ''m'', asc ''/a'')] = [ImageMissing (asc ''/a'')]"
    using m by blast
  from all [where target = "asc ''/b''" and alt_text = "asc ''e''"]
  have ce: "image_loop image_fs [(asc ''e'', asc ''/b'')] = []"
    using e by blast
  show ?thesis
    unfolding e1 images verdicts using cw cr cm ce by (intro conjI) simp_all
qed

section \<open>Properties of the code-block analyzer\<close>

lemma fence_lines_append: "fence_lines (xs @ ys) = fence_lines xs @ fence_lines ys"
  by (induction xs rule: fence_lines.induct) simp_all

lemma inline_lines_append: "inline_lines (xs @ ys) = inline_lines xs @ inline_lines ys"
  by (induction xs rule: inline_lines.induct) simp_all

lemma fence_lines_fence_pass:
  "set (fence_lines (fence_pass b i ls)) \<subseteq> set (fence_numbers i ls)"
  by (induction ls arbitrary: b i) auto

lemma inline_lines_fence_pass: "inline_lines (fence_pass b i ls) = []"
  by (induction ls arbitrary: b i) auto

lemma fence_lines_inline_pass: "fence_lines (inline_pass i ls) = []"
  by (induction ls arbitrary: i) auto

lemma inline_pass_lower: "j \<in> set (inline_lines (inline_pass k ls)) \<Longrightarrow> k \<le> j"
  by (induction ls arbitrary: k) (auto split: if_splits dest: Suc_leD)

lemma fence_numbers_lower: "j \<in> set (fence_numbers k ls) \<Longrightarrow> k \<le> j"
  by (induction ls arbitrary: k) (auto split: if_splits dest: Suc_leD)

lemma inline_lines_inline_pass:
  "set (inline_lines (inline_pass i ls)) \<inter> set (fence_numbers i ls) = {}"
proof (induction ls arbitrary: i)
  case Nil
  show ?case by simp
next
  case (Cons line ls)
  have a: "i \<notin> set (inline_lines (inline_pass (Suc i) ls))"
    using inline_pass_lower [of i "Suc i" ls] by auto
  have b: "i \<notin> set (fence_numbers (Suc i) ls)"
    using fence_numbers_lower [of i "Suc i" ls] by auto
  from Cons.IH [of "Suc i"] a b show ?case
    by simp
qed

text \<open>
  Claim C10. In the result of the code-block analyzer, the line numbers cited by fence
  issues and the line numbers cited by inline-code issues are disjoint: the fence
  issues cite only lines whose trimmed content starts with three backticks, and no
  inline-code issue cites such a line.
\<close>

theorem code_blocks_fence_inline_disjoint:
  "set (fence_lines (issues_of (verify_code_blocks content))) \<subseteq> set (fence_numbers 1 (split_nl content))
   \<and> set (inline_lines (issues_of (verify_code_blocks content))) \<inter> set (fence_numbers 1 (split_nl content)) = {}
   \<and> set (fence_lines (issues_of (verify_code_blocks content))) \<inter>
       set (inline_lines (issues_of (verify_code_blocks content))) = {}"
proof -
  let ?ls = "split_nl content"
  have iss: "issues_of (verify_code_blocks content) = fence_pass False 1 ?ls @ inline_pass 1 ?ls"
    by (simp add: verify_code_blocks_def issues_of_def code_block_issues_def Let_def)
  have f: "set (fence_lines (fence_pass False 1 ?ls @ inline_pass 1 ?ls)) \<subseteq> set (fence_numbers 1 ?ls)"
    using fence_lines_fence_pass [of False 1 ?ls]
    by (simp add: fence_lines_append fence_lines_inline_pass)
  have i: "set (inline_lines (fence_pass False 1 ?ls @ inline_pass 1 ?ls)) \<inter> set (fence_numbers 1 ?ls) = {}"
    using inline_lines_inline_pass [of 1 ?ls]
    by (simp add: inline_lines_append inline_lines_fence_pass)
  from f i show ?thesis unfolding iss by blast
qed

text \<open>
  The claim on a text of five lines: a fence tagged \<^verbatim>\<open>python\<close>, a line of code, the closing
  fence, a line with two inline spans, and a fence line that holds inline spans itself.
  The last line opens a block and is reported as a fence only.
\<close>

theorem code_blocks_fence_inline_disjoint_witness:
  "issues_of (verify_code_blocks
      ([96, 96, 96] @ asc ''python'' @ [10] @ asc ''x = 1'' @ [10, 96, 96, 96, 10]
        @ asc ''use '' @ [96, 97, 96, 32, 96, 98, 96, 10]
        @ [96, 96, 96, 32, 96, 99, 96, 32, 96, 100, 96]))
     = [FenceBlock 1 (asc ''python''), FenceBlock 5 [96, 99, 96, 32, 96, 100, 96], InlineCode 4]
   \<and> set [1, 5] \<inter> set [4 :: nat] = {}"
proof -
  let ?text = "[96, 96, 96] @ asc ''python'' @ [10] @ asc ''x = 1'' @ [10, 96, 96, 96, 10]
        @ asc ''use '' @ [96, 97, 96, 32, 96, 98, 96, 10]
        @ [96, 96, 96, 32, 96, 99, 96, 32, 96, 100, 96]"
  have issues: "issues_of (verify_code_blocks ?text)
      = [FenceBlock 1 (asc ''python''), FenceBlock 5 [96, 99, 96, 32, 96, 100, 96], InlineCode 4]"
    by (simp add: verify_code_blocks_def code_block_issues_def issues_of_def asc_def is_fence_def
        block_type_def strip_def is_space_def Let_def)
  from code_blocks_fence_inline_disjoint [of ?text]
  have "set (fence_lines (issues_of (verify_code_blocks ?text))) \<inter>
      set (inline_lines (issues_of (verify_code_blocks ?text))) = {}"
    by blast
  then show ?thesis
    unfolding issues by simp
qed

end
